theory Spec2Isabelle
  imports Complex_Main "HOL-Library.Monad_Syntax"
begin

section \<open>flight\_replay.py: telemetry log to waypoints\<close>

text \<open>
  The script \<^verbatim>\<open>examples/flight_replay/flight_replay.py\<close> reads the GLOBAL\_POSITION\_INT
  messages of a telemetry log, thins them out to at most 99 points, uploads one waypoint
  command per point and flies the mission.

  Python's \<^verbatim>\<open>int\<close> is modelled by \<open>int\<close> and \<open>nat\<close> (list lengths, indices and the
  mission cursor are never negative), Python's \<^verbatim>\<open>float\<close> by \<open>real\<close>: rounding, overflow
  and NaN of the double format are outside the model. Exceptions and \<^verbatim>\<open>exit\<close> are values.
\<close>

subsection \<open>Data\<close>

text \<open>The fields of a GLOBAL\_POSITION\_INT message that the script reads, and the altitude
  that it deliberately does not read.\<close>

record position_msg =
  lat :: int
  lon :: int
  alt :: int

datatype py_error = IndexError | ValueError | TypeError

text \<open>
  One call of \<^verbatim>\<open>mlog.recv_match(type=['GLOBAL_POSITION_INT'])\<close> returns a message or raises;
  the end of the list of calls is the call that returns \<^verbatim>\<open>None\<close>.
\<close>

datatype recv = Recv position_msg | Raises

subsection \<open>position\_messages\_from\_tlog\<close>

text \<open>Lines 73 to 85: the \<^verbatim>\<open>while True\<close> loop over the log, with \<open>messages\<close> as accumulator.\<close>

fun recv_loop :: "recv list \<Rightarrow> position_msg list \<Rightarrow> position_msg list" where
  "recv_loop [] messages = messages"
| "recv_loop (Raises # mlog) messages = messages"
| "recv_loop (Recv m # mlog) messages =
     (if lat m = 0 then recv_loop mlog messages else recv_loop mlog (messages @ [m]))"

definition max_points :: nat where
  "max_points = 99"

text \<open>Line 91: \<^verbatim>\<open>int(math.ceil((float(num_points) / max_points)))\<close>. The quotient is
  taken in the reals. For a length up to \<open>2\<^sup>5\<^sup>3\<close> the double quotient has the same ceiling:
  the length is exact as a double, and a quotient that is not an integer lies at least
  \<open>1/99\<close> above one, further than the rounding of the division can move it.\<close>

definition step_of :: "nat \<Rightarrow> nat" where
  "step_of num_points = nat \<lceil>real num_points / real max_points\<rceil>"

text \<open>\<^verbatim>\<open>xrange(start, stop, step)\<close> for a positive step; a zero step is a \<^verbatim>\<open>ValueError\<close>.\<close>

function xrange_from :: "nat \<Rightarrow> nat \<Rightarrow> nat \<Rightarrow> nat list" where
  "xrange_from i stop step =
     (if step = 0 \<or> stop \<le> i then [] else i # xrange_from (i + step) stop step)"
  by pat_completeness auto
termination
  by (relation "measure (\<lambda>(i, stop, step). stop - i)") auto

declare xrange_from.simps [simp del]

definition xrange :: "nat \<Rightarrow> nat \<Rightarrow> nat \<Rightarrow> py_error + nat list" where
  "xrange start stop step =
     (if step = 0 then Inl ValueError else Inr (xrange_from start stop step))"

text \<open>\<^verbatim>\<open>xs[i]\<close> for a non-negative index.\<close>

definition getitem :: "'a list \<Rightarrow> nat \<Rightarrow> py_error + 'a" where
  "getitem xs i = (if i < length xs then Inr (xs ! i) else Inl IndexError)"

text \<open>The list comprehension \<^verbatim>\<open>[messages[i] for i in ...]\<close>: the first failing read ends it.\<close>

fun pick :: "'a list \<Rightarrow> nat list \<Rightarrow> py_error + 'a list" where
  "pick xs [] = Inr []"
| "pick xs (i # is) =
     (case getitem xs i of
        Inl e \<Rightarrow> Inl e
      | Inr x \<Rightarrow> (case pick xs is of Inl e \<Rightarrow> Inl e | Inr ys \<Rightarrow> Inr (x # ys)))"

text \<open>Lines 88 to 94.\<close>

definition shrink :: "position_msg list \<Rightarrow> py_error + position_msg list" where
  "shrink messages =
     (let num_points = length messages in
      if num_points > max_points then
        (case xrange 0 num_points (step_of num_points) of
           Inl e \<Rightarrow> Inl e
         | Inr is \<Rightarrow> pick messages is)
      else Inr messages)"

definition position_messages_from_tlog :: "recv list \<Rightarrow> py_error + position_msg list" where
  "position_messages_from_tlog mlog = shrink (recv_loop mlog [])"

text \<open>The number of multiples of \<open>step\<close> below \<open>n\<close>; used to state what \<open>xrange\<close> yields.\<close>

definition count_of :: "nat \<Rightarrow> nat \<Rightarrow> nat" where
  "count_of n step = (n + step - 1) div step"

subsection \<open>Locations and get\_distance\_metres\<close>

text \<open>A dronekit location object (\<^verbatim>\<open>LocationGlobal\<close>, \<^verbatim>\<open>LocationGlobalRelative\<close>): the
  attributes \<^verbatim>\<open>lat\<close>, \<^verbatim>\<open>lon\<close>, \<^verbatim>\<open>alt\<close>, here with a prefix since the message has the same ones.\<close>

record location =
  loc_lat :: real
  loc_lon :: real
  loc_alt :: real

definition LocationGlobalRelative :: "real \<Rightarrow> real \<Rightarrow> real \<Rightarrow> location" where
  "LocationGlobalRelative la lo al = \<lparr>loc_lat = la, loc_lon = lo, loc_alt = al\<rparr>"

definition get_distance_metres :: "location \<Rightarrow> location \<Rightarrow> real" where
  "get_distance_metres aLocation1 aLocation2 =
     (let dlat = loc_lat aLocation2 - loc_lat aLocation1;
          dlong = loc_lon aLocation2 - loc_lon aLocation1
      in sqrt ((dlat * dlat) + (dlong * dlong)) * 111319.5)"

subsection \<open>Mission commands\<close>

text \<open>The two pymavlink enumerations the script takes its constants from; only the names
  are used, the numbers are pymavlink's.\<close>

datatype mav_frame =
  MAV_FRAME_GLOBAL | MAV_FRAME_LOCAL_NED | MAV_FRAME_MISSION | MAV_FRAME_GLOBAL_RELATIVE_ALT

datatype mav_cmd =
  MAV_CMD_NAV_WAYPOINT | MAV_CMD_NAV_LOITER_UNLIM | MAV_CMD_NAV_RETURN_TO_LAUNCH
  | MAV_CMD_NAV_LAND | MAV_CMD_NAV_TAKEOFF

text \<open>A dronekit \<^verbatim>\<open>Command\<close>; its attributes \<^verbatim>\<open>x\<close>, \<^verbatim>\<open>y\<close>, \<^verbatim>\<open>z\<close> are \<open>wp_x\<close>, \<open>wp_y\<close>,
  \<open>wp_z\<close> here.\<close>

record mission_item =
  target_system :: nat
  target_component :: nat
  seq :: nat
  frame :: mav_frame
  command :: mav_cmd
  current :: nat
  autocontinue :: nat
  param1 :: real
  param2 :: real
  param3 :: real
  param4 :: real
  wp_x :: real
  wp_y :: real
  wp_z :: real

text \<open>The constructor, with the positional arguments of the call in line 133.\<close>

definition Command ::
  "nat \<Rightarrow> nat \<Rightarrow> nat \<Rightarrow> mav_frame \<Rightarrow> mav_cmd \<Rightarrow> nat \<Rightarrow> nat \<Rightarrow>
   real \<Rightarrow> real \<Rightarrow> real \<Rightarrow> real \<Rightarrow> real \<Rightarrow> real \<Rightarrow> real \<Rightarrow> mission_item" where
  "Command ts tc sq fr cm cu ac p1 p2 p3 p4 px py pz =
     \<lparr>target_system = ts, target_component = tc, seq = sq, frame = fr, command = cm,
      current = cu, autocontinue = ac, param1 = p1, param2 = p2, param3 = p3, param4 = p4,
      wp_x = px, wp_y = py, wp_z = pz\<rparr>"

subsection \<open>The vehicle link and the state of the script\<close>

text \<open>
  What the script asks of the simulator and of the vehicle, in the order of the calls.
  Printing is left out. Failures of the link itself (a refused connection, a rejected
  upload) are not modelled: every request returns.
\<close>

datatype action =
    SitlDownload string string
  | SitlLaunch "string list"
  | Connect string
  | CmdsWaitReady
  | CmdsClear
  | CmdsAdd mission_item
  | CmdsUpload
  | SetMode string
  | SetArmed bool
  | SimpleTakeoff real
  | SetNext nat
  | VehicleClose
  | SitlStop

text \<open>
  What the script reads: the attributes of \<^verbatim>\<open>vehicle\<close> and the clock \<^verbatim>\<open>time.time()\<close>. They
  change behind the script's back, so the world is a function from the number of
  \<^verbatim>\<open>time.sleep\<close> calls made so far to what is read then; reads between two sleeps see the
  same values.
\<close>

record observation =
  mode_name :: string
  armed :: bool
  rel_alt :: real
  global_frame :: location
  commands_next :: nat
  clock :: real

type_synonym world = "nat \<Rightarrow> observation"

text \<open>The script's own state: the sleeps so far, the requests so far, and the list behind
  \<^verbatim>\<open>vehicle.commands\<close> (emptied by \<^verbatim>\<open>clear\<close>, extended by \<^verbatim>\<open>add\<close>).\<close>

record state =
  tick :: nat
  trace :: "action list"
  commands :: "mission_item list"

text \<open>How a run ends before its last line: \<^verbatim>\<open>exit(n)\<close> or an uncaught exception.\<close>

datatype halt = Exit int | Raise py_error

definition request :: "action \<Rightarrow> state \<Rightarrow> state" where
  "request a s = s\<lparr>trace := trace s @ [a]\<rparr>"

definition sleep :: "state \<Rightarrow> state" where
  "sleep s = s\<lparr>tick := Suc (tick s)\<rparr>"

subsection \<open>Python's six-decimal conversion\<close>

text \<open>
  \<^verbatim>\<open>'%f' % v\<close> writes a float with six decimals: a minus sign when \<open>v\<close> is negative, the
  digits of the integer part, a point and six digits, the last one rounded to nearest.
  \<open>fixed6 m\<close> is that text for \<open>m\<close> millionths.
\<close>

definition digit_char :: "nat \<Rightarrow> char" where
  "digit_char d = ''0123456789'' ! d"

function digits_of :: "nat \<Rightarrow> string" where
  "digits_of n = (if n < 10 then [digit_char n] else digits_of (n div 10) @ [digit_char (n mod 10)])"
  by pat_completeness auto
termination
  by (relation "measure id") auto

declare digits_of.simps [simp del]

definition fixed6 :: "nat \<Rightarrow> string" where
  "fixed6 m =
     digits_of (m div 1000000) @ ''.'' @
     map (\<lambda>i. digit_char (m div 10 ^ i mod 10)) [5, 4, 3, 2, 1, 0 :: nat]"

text \<open>
  A conversion of this kind: the text of \<open>v\<close> is the text of a number of millionths nearest
  to \<open>\<bar>v\<bar>\<close>, with the sign of \<open>v\<close>. Where \<open>v\<close> lies halfway between two millionths either is
  allowed: Python decides by the double that stands for \<open>v\<close>, which the reals do not see.
  For the quotients \<open>lat / 10\<^sup>7\<close> of the script every other case is decided by \<open>v\<close> itself.
\<close>

definition six_decimals :: "(real \<Rightarrow> string) \<Rightarrow> bool" where
  "six_decimals pf =
     (\<forall>v. \<exists>m. \<bar>real m - \<bar>v\<bar> * 1000000\<bar> \<le> 1 / 2 \<and>
            pf v = (if v < 0 then ''-'' else []) @ fixed6 m)"

text \<open>One such conversion, which rounds a half up; it is the one of the examples.\<close>

definition percent_f_nearest :: "real \<Rightarrow> string" where
  "percent_f_nearest v =
     (if v < 0 then ''-'' else []) @ fixed6 (nat (round (\<bar>v\<bar> * 1000000)))"

subsection \<open>start\_default\_sitl\<close>

text \<open>
  \<open>percent_f\<close> stands for Python's \<^verbatim>\<open>'%f' % x\<close>, which is not code of this repository;
  \<open>six_decimals\<close> above says what it does.
  The result is the connection string; \<^verbatim>\<open>exit(1)\<close> comes after the download and before
  the launch.
\<close>

definition start_default_sitl ::
  "(real \<Rightarrow> string) \<Rightarrow> real option \<Rightarrow> real option \<Rightarrow> state \<Rightarrow> (halt \<times> state) + (string \<times> state)" where
  "start_default_sitl percent_f la lo s0 =
     (let s1 = request (SitlDownload ''copter'' ''3.3'') s0 in
      if (la \<noteq> None \<and> lo = None) \<or> (la = None \<and> lo \<noteq> None) then Inl (Exit 1, s1)
      else
        let sitl_args = [''-I0'', ''--model'', ''quad''] in
        (case la of
           None \<Rightarrow> Inr (''tcp:127.0.0.1:5760'', request (SitlLaunch sitl_args) s1)
         | Some lat_deg \<Rightarrow>
             (case lo of
                None \<Rightarrow> Inl (Raise TypeError, s1)
              | Some lon_deg \<Rightarrow>
                  Inr (''tcp:127.0.0.1:5760'',
                       request (SitlLaunch (sitl_args @
                         [''--home='' @ percent_f lat_deg @ '','' @ percent_f lon_deg @ '',584,353''])) s1))))"

subsection \<open>distance\_to\_current\_waypoint\<close>

definition distance_to_current_waypoint ::
  "observation \<Rightarrow> mission_item list \<Rightarrow> py_error + real option" where
  "distance_to_current_waypoint obs cmds =
     (let nextwaypoint = commands_next obs in
      if nextwaypoint = 0 then Inr None
      else
        (case getitem cmds (nextwaypoint - 1) of
           Inl e \<Rightarrow> Inl e
         | Inr missionitem \<Rightarrow>
             let targetWaypointLocation =
                   LocationGlobalRelative (wp_x missionitem) (wp_y missionitem) (wp_z missionitem)
             in Inr (Some (get_distance_metres (global_frame obs) targetWaypointLocation))))"

subsection \<open>The script: from the log to the uploaded mission\<close>

record args =
  connect :: "string option"
  tlog :: string

definition init_state :: state where
  "init_state = \<lparr>tick = 0, trace = [], commands = []\<rparr>"

text \<open>Lines 104 to 111. \<^verbatim>\<open>if args.connect\<close> is false for \<^verbatim>\<open>None\<close> and for the empty string.
  The second component of the result says whether \<^verbatim>\<open>sitl\<close> is not \<^verbatim>\<open>None\<close>.\<close>

definition choose_link ::
  "(real \<Rightarrow> string) \<Rightarrow> args \<Rightarrow> position_msg list \<Rightarrow> state \<Rightarrow>
   (halt \<times> state) + (string \<times> bool \<times> state)" where
  "choose_link percent_f a messages s =
     (let via_sitl =
            (case getitem messages 0 of
               Inl e \<Rightarrow> Inl (Raise e, s)
             | Inr m0 \<Rightarrow>
                 let start_lat = real_of_int (lat m0) / 10000000;
                     start_lon = real_of_int (lon m0) / 10000000
                 in (case start_default_sitl percent_f (Some start_lat) (Some start_lon) s of
                       Inl h \<Rightarrow> Inl h
                     | Inr (connection_string, s') \<Rightarrow> Inr (connection_string, True, s')))
      in case connect a of
           None \<Rightarrow> via_sitl
         | Some connection_string \<Rightarrow>
             if connection_string = [] then via_sitl else Inr (connection_string, False, s))"

text \<open>Lines 126 to 139: the command built from one point.\<close>

definition waypoint_command :: "position_msg \<Rightarrow> mission_item" where
  "waypoint_command pt =
     (let la = lat pt; lo = lon pt; altitude = 30 in
      Command 0 0 0 MAV_FRAME_GLOBAL_RELATIVE_ALT MAV_CMD_NAV_WAYPOINT 0 0 0 0 0 0
        (real_of_int la / 10000000) (real_of_int lo / 10000000) altitude)"

definition cmds_clear :: "state \<Rightarrow> state" where
  "cmds_clear s = request CmdsClear (s\<lparr>commands := []\<rparr>)"

definition cmds_add :: "mission_item \<Rightarrow> state \<Rightarrow> state" where
  "cmds_add cmd s = request (CmdsAdd cmd) (s\<lparr>commands := commands s @ [cmd]\<rparr>)"

text \<open>Lines 125 to 140: \<^verbatim>\<open>for i in xrange(0, len(messages))\<close> reads \<^verbatim>\<open>messages[i]\<close> for every
  index in turn, which is the recursion over the list.\<close>

fun add_waypoints :: "position_msg list \<Rightarrow> state \<Rightarrow> state" where
  "add_waypoints [] s = s"
| "add_waypoints (pt # pts) s = add_waypoints pts (cmds_add (waypoint_command pt) s)"

text \<open>Lines 119 to 144.\<close>

definition upload_mission :: "position_msg list \<Rightarrow> state \<Rightarrow> state" where
  "upload_mission messages s =
     request CmdsUpload (add_waypoints messages (cmds_clear (request CmdsWaitReady s)))"

subsection \<open>The script: the flight\<close>

text \<open>
  The poll loops have no bound of their own, so each is a partial function: \<open>None\<close> is the
  loop that never ends. Lines 147 to 149, 178 to 180 and 194 to 196:
\<close>

partial_function (option) wait_for_mode :: "world \<Rightarrow> string \<Rightarrow> state \<Rightarrow> state option" where
  "wait_for_mode w name s =
     (if mode_name (w (tick s)) \<noteq> name
      then wait_for_mode w name (sleep (request (SetMode name) s))
      else Some s)"

text \<open>Lines 151 to 155.\<close>

partial_function (option) wait_for_armed :: "world \<Rightarrow> state \<Rightarrow> state option" where
  "wait_for_armed w s =
     (if \<not> armed (w (tick s))
      then wait_for_armed w (sleep (request (SetArmed True) s))
      else Some s)"

text \<open>Lines 162 to 170.\<close>

partial_function (option) wait_for_altitude :: "world \<Rightarrow> real \<Rightarrow> state \<Rightarrow> state option" where
  "wait_for_altitude w aTargetAltitude s =
     (let requiredAlt = aTargetAltitude * 0.95 in
      if rel_alt (w (tick s)) \<ge> requiredAlt then Some s
      else wait_for_altitude w aTargetAltitude (sleep s))"

text \<open>Lines 184 to 191; \<open>n\<close> is \<^verbatim>\<open>len(messages)\<close>. The distance is only printed, but computing
  it can raise.\<close>

partial_function (option) monitor_mission ::
  "world \<Rightarrow> real \<Rightarrow> nat \<Rightarrow> state \<Rightarrow> ((halt \<times> state) + state) option" where
  "monitor_mission w time_start n s =
     (if clock (w (tick s)) - time_start < 60 then
        (let nextwaypoint = commands_next (w (tick s)) in
         case distance_to_current_waypoint (w (tick s)) (commands s) of
           Inl e \<Rightarrow> Some (Inl (Raise e, s))
         | Inr d \<Rightarrow>
             if nextwaypoint = n then Some (Inr s)
             else monitor_mission w time_start n (sleep s))
      else Some (Inr s))"

text \<open>Each phase is its loop followed by the rest of the script. Lines 193 to 206:\<close>

definition rtl_phase :: "world \<Rightarrow> bool \<Rightarrow> state \<Rightarrow> state option" where
  "rtl_phase w sitl s =
     wait_for_mode w ''RTL'' s \<bind>
       (\<lambda>s1. let s2 = request VehicleClose s1
             in Some (if sitl then request SitlStop s2 else s2))"

text \<open>Lines 183 to 206.\<close>

definition monitor_phase ::
  "world \<Rightarrow> nat \<Rightarrow> bool \<Rightarrow> state \<Rightarrow> ((halt \<times> state) + state) option" where
  "monitor_phase w n sitl s =
     (let time_start = clock (w (tick s)) in
      monitor_mission w time_start n s \<bind>
        (\<lambda>r. case r of
               Inl h \<Rightarrow> Some (Inl h)
             | Inr s1 \<Rightarrow> map_option Inr (rtl_phase w sitl s1)))"

text \<open>Lines 175 to 206.\<close>

definition auto_phase ::
  "world \<Rightarrow> nat \<Rightarrow> bool \<Rightarrow> state \<Rightarrow> ((halt \<times> state) + state) option" where
  "auto_phase w n sitl s =
     wait_for_mode w ''AUTO'' (request (SetNext 0) s) \<bind> monitor_phase w n sitl"

text \<open>Lines 157 to 206.\<close>

definition takeoff_phase ::
  "world \<Rightarrow> nat \<Rightarrow> bool \<Rightarrow> state \<Rightarrow> ((halt \<times> state) + state) option" where
  "takeoff_phase w n sitl s =
     (let aTargetAltitude = 30 in
      wait_for_altitude w aTargetAltitude (request (SimpleTakeoff aTargetAltitude) s) \<bind>
        auto_phase w n sitl)"

text \<open>Lines 151 to 206.\<close>

definition arming_phase ::
  "world \<Rightarrow> nat \<Rightarrow> bool \<Rightarrow> state \<Rightarrow> ((halt \<times> state) + state) option" where
  "arming_phase w n sitl s = wait_for_armed w s \<bind> takeoff_phase w n sitl"

text \<open>Lines 147 to 206.\<close>

definition guided_phase ::
  "world \<Rightarrow> nat \<Rightarrow> bool \<Rightarrow> state \<Rightarrow> ((halt \<times> state) + state) option" where
  "guided_phase w n sitl s = wait_for_mode w ''GUIDED'' s \<bind> arming_phase w n sitl"

text \<open>The whole script, lines 96 to 206.\<close>

definition main ::
  "world \<Rightarrow> (real \<Rightarrow> string) \<Rightarrow> args \<Rightarrow> recv list \<Rightarrow> ((halt \<times> state) + state) option" where
  "main w percent_f a mlog =
     (case position_messages_from_tlog mlog of
        Inl e \<Rightarrow> Some (Inl (Raise e, init_state))
      | Inr messages \<Rightarrow>
          if length messages = 0 then Some (Inl (Exit 0, init_state))
          else
            (case choose_link percent_f a messages init_state of
               Inl h \<Rightarrow> Some (Inl h)
             | Inr (connection_string, sitl, s1) \<Rightarrow>
                 guided_phase w (length messages) sitl
                   (upload_mission messages (request (Connect connection_string) s1))))"

text \<open>The state in which a run has ended, whether at its last line or at an exception.\<close>

definition final_state :: "(halt \<times> state) + state \<Rightarrow> state" where
  "final_state res = (case res of Inl (h, s) \<Rightarrow> s | Inr s \<Rightarrow> s)"

subsection \<open>Example inputs\<close>

text \<open>A mission of two waypoints, already uploaded, and five vehicles: one that is in
  AUTO mode, turns to the second waypoint thirty seconds into the monitoring and reports
  RTL two seconds after that; one that confirms every request after a while; one that
  never answers a request; one that turns to the second waypoint and to RTL by itself
  after one second; and one that reports a cursor beyond the mission. Their clocks
  advance by one second per sleep.\<close>

definition example_mission :: "mission_item list" where
  "example_mission =
     [waypoint_command \<lparr>lat = 474000000, lon = 85000000, alt = 500\<rparr>,
      waypoint_command \<lparr>lat = 474001000, lon = 85002000, alt = 510\<rparr>]"

definition example_state :: state where
  "example_state = \<lparr>tick = 0, trace = [], commands = example_mission\<rparr>"

definition example_world :: world where
  "example_world t =
     \<lparr>mode_name = (if t < 32 then ''AUTO'' else ''RTL''), armed = True, rel_alt = 30,
      global_frame = \<lparr>loc_lat = 47.4, loc_lon = 8.5, loc_alt = 530\<rparr>,
      commands_next = (if t < 30 then 1 else 2), clock = 1000 + real t\<rparr>"

definition flying_world :: world where
  "flying_world t =
     \<lparr>mode_name = (if t < 2 then ''STABILIZE'' else if t < 6 then ''GUIDED''
                   else if t < 10 then ''AUTO'' else ''RTL''),
      armed = (3 \<le> t), rel_alt = (if t < 5 then 10 else 29),
      global_frame = \<lparr>loc_lat = 47.4, loc_lon = 8.5, loc_alt = 530\<rparr>,
      commands_next = (if t < 8 then 1 else 2), clock = 1000 + real t\<rparr>"

definition stuck_world :: world where
  "stuck_world t =
     \<lparr>mode_name = ''STABILIZE'', armed = False, rel_alt = 0,
      global_frame = \<lparr>loc_lat = 47.4, loc_lon = 8.5, loc_alt = 500\<rparr>,
      commands_next = 0, clock = 1000 + real t\<rparr>"

definition early_rtl_world :: world where
  "early_rtl_world t =
     \<lparr>mode_name = (if t < 1 then ''AUTO'' else ''RTL''), armed = True, rel_alt = 30,
      global_frame = \<lparr>loc_lat = 47.4, loc_lon = 8.5, loc_alt = 530\<rparr>,
      commands_next = (if t < 1 then 1 else 2), clock = 1000 + real t\<rparr>"

definition overrun_world :: world where
  "overrun_world t =
     \<lparr>mode_name = ''AUTO'', armed = True, rel_alt = 30,
      global_frame = \<lparr>loc_lat = 47.4, loc_lon = 8.5, loc_alt = 530\<rparr>,
      commands_next = 3, clock = 1000 + real t\<rparr>"

section \<open>Properties\<close>

subsection \<open>The log reader\<close>

lemma recv_loop_acc: "recv_loop mlog acc = acc @ recv_loop mlog []"
proof (induction mlog arbitrary: acc)
  case Nil
  show ?case by simp
next
  case (Cons r mlog)
  show ?case
  proof (cases r)
    case (Recv m)
    show ?thesis
      using Cons.IH [of "acc @ [m]"] Cons.IH [of "[m]"] Cons.IH [of acc] Recv by simp
  next
    case Raises
    then show ?thesis by simp
  qed
qed

lemma recv_loop_decoded:
  "recv_loop (map Recv ms @ rest) [] = filter (\<lambda>m. lat m \<noteq> 0) ms @ recv_loop rest []"
proof (induction ms)
  case Nil
  show ?case by simp
next
  case (Cons m ms)
  show ?case using Cons.IH recv_loop_acc [of "map Recv ms @ rest" "[m]"] by simp
qed

text \<open>
  Claim C3. Whatever messages \<open>ms\<close> the log decodes, up to its end or up to the first
  decode fault, the reader keeps exactly those with a latitude other than 0, unchanged
  and in the order of arrival. The test reads no other field, so a message with longitude 0
  and a latitude other than 0 stays.
\<close>

theorem recv_loop_filters_lat:
  "recv_loop (map Recv ms) [] = filter (\<lambda>m. lat m \<noteq> 0) ms \<and>
   recv_loop (map Recv ms @ Raises # rest) [] = filter (\<lambda>m. lat m \<noteq> 0) ms"
  using recv_loop_decoded [of ms "[]"] recv_loop_decoded [of ms "Raises # rest"] by simp

subsection \<open>The sampler\<close>

lemma step_of_div: "step_of n = (n + 98) div 99"
  unfolding step_of_def max_points_def by linarith

lemma step_of_covers: "n \<le> 99 * step_of n"
  unfolding step_of_div by linarith

lemma step_of_ge2: "99 < n \<Longrightarrow> 2 \<le> step_of n"
  unfolding step_of_div by linarith

lemma count_step:
  assumes "0 < s" "i < n"
  shows "(n - i + s - 1) div s = Suc ((n - (i + s) + s - 1) div s)"
proof (cases "i + s \<le> n")
  case True
  then have "n - i + s - 1 = (n - (i + s) + s - 1) + s"
    using assms by simp
  then have "(n - i + s - 1) div s = ((n - (i + s) + s - 1) + s) div s"
    by (rule arg_cong)
  also have "\<dots> = (n - (i + s) + s - 1) div s + 1"
    using assms by (intro div_add_self2) simp
  finally show ?thesis by (simp only: Suc_eq_plus1)
next
  case False
  then have a: "(n - (i + s) + s - 1) div s = 0"
    using assms by simp
  have "s * 1 \<le> n - i + s - 1" "n - i + s - 1 < s * Suc 1"
    using False assms by simp_all
  then have "(n - i + s - 1) div s = 1"
    by (rule div_nat_eqI)
  then show ?thesis by (simp only: a)
qed

lemma xrange_from_map:
  "0 < s \<Longrightarrow> xrange_from i n s = map (\<lambda>k. i + k * s) [0..<(n - i + s - 1) div s]"
proof (induction i n s rule: xrange_from.induct)
  case (1 i stop step)
  show ?case
  proof (cases "stop \<le> i")
    case True
    then show ?thesis using "1.prems" by (simp add: xrange_from.simps [of i])
  next
    case False
    then have lt: "i < stop" by simp
    have ih: "xrange_from (i + step) stop step =
        map (\<lambda>k. i + step + k * step) [0..<(stop - (i + step) + step - 1) div step]"
      using "1.IH" "1.prems" False by simp
    have "xrange_from i stop step = i # xrange_from (i + step) stop step"
      using False "1.prems" by (simp add: xrange_from.simps [of i])
    also have "\<dots> = map (\<lambda>k. i + k * step) [0..<Suc ((stop - (i + step) + step - 1) div step)]"
    proof -
      let ?c = "(stop - (i + step) + step - 1) div step"
      have "[0..<Suc ?c] = 0 # map Suc [0..<?c]"
        by (simp only: map_Suc_upt upt_conv_Cons [of 0 "Suc ?c"] zero_less_Suc)
      then show ?thesis unfolding ih by (simp add: o_def del: upt_Suc)
    qed
    finally show ?thesis using count_step [OF "1.prems" lt] by simp
  qed
qed

lemma pick_map: "\<forall>i \<in> set is. i < length xs \<Longrightarrow> pick xs is = Inr (map (\<lambda>i. xs ! i) is)"
  by (induction "is") (simp_all add: getitem_def)

lemma count_of_below:
  assumes "0 < s" "k < count_of n s"
  shows "k * s < n"
proof -
  have "Suc k \<le> (n + s - 1) div s"
    using assms(2) by (simp add: count_of_def)
  then have "Suc k * s \<le> n + s - 1"
    using assms(1) by (simp only: less_eq_div_iff_mult_less_eq)
  then have "k * s + s \<le> n + s - 1" by simp
  then show ?thesis using assms(1) by linarith
qed

lemma count_of_exhausts:
  assumes "0 < s"
  shows "n \<le> count_of n s * s"
proof -
  have "(n + s - 1) div s < Suc (count_of n s)"
    by (simp add: count_of_def)
  then have "n + s - 1 < Suc (count_of n s) * s"
    using assms by (simp only: div_less_iff_less_mult)
  then have "n + s - 1 < count_of n s * s + s" by simp
  then show ?thesis using assms by linarith
qed

lemma count_of_bound:
  assumes "0 < s" "n \<le> 99 * s"
  shows "count_of n s \<le> 99"
proof -
  have "n + s - 1 < 100 * s" using assms by linarith
  then have "(n + s - 1) div s < 100"
    using assms(1) by (simp only: div_less_iff_less_mult)
  then show ?thesis by (simp add: count_of_def)
qed

lemma multiples_increasing: "0 < s \<Longrightarrow> sorted_wrt (<) (map (\<lambda>k. k * s) [0..<c])"
  by (simp add: sorted_wrt_iff_nth_less)

lemma shrink_long:
  assumes "99 < length ms"
  shows "shrink ms = Inr (map (\<lambda>k. ms ! (k * step_of (length ms)))
                          [0..<count_of (length ms) (step_of (length ms))])"
proof -
  let ?n = "length ms" and ?s = "step_of (length ms)"
  have s: "0 < ?s" using step_of_ge2 [OF assms] by simp
  have xr: "xrange_from 0 ?n ?s = map (\<lambda>k. k * ?s) [0..<count_of ?n ?s]"
    using xrange_from_map [OF s, of 0 ?n] by (simp add: count_of_def)
  have "\<forall>i \<in> set (xrange_from 0 ?n ?s). i < ?n"
    unfolding xr using count_of_below [OF s] by auto
  then have "pick ms (xrange_from 0 ?n ?s) = Inr (map (\<lambda>i. ms ! i) (xrange_from 0 ?n ?s))"
    by (rule pick_map)
  then show ?thesis
    using assms s by (simp add: shrink_def Let_def max_points_def xrange_def xr o_def)
qed

lemma shrink_short: "length ms \<le> 99 \<Longrightarrow> shrink ms = Inr ms"
  by (simp add: shrink_def max_points_def)

text \<open>
  Claim C1. For a list of more than 99 position records the sampler takes the stride
  \<open>\<lceil>n / 99\<rceil>\<close> and returns the records at the indices \<open>0\<close>, stride, twice the stride and
  so on, all of them below \<open>n\<close> and none below \<open>n\<close> left out, in that order. The result has
  at most 99 records, the indices grow strictly, and the first record of the result is
  the first record of the input.
\<close>

theorem shrink_stride:
  assumes "99 < length messages"
  shows "\<exists>shorter.
    shrink messages = Inr shorter \<and>
    int (step_of (length messages)) = \<lceil>real (length messages) / 99\<rceil> \<and>
    shorter = map (\<lambda>k. messages ! (k * step_of (length messages))) [0..<length shorter] \<and>
    (\<forall>k < length shorter. k * step_of (length messages) < length messages) \<and>
    length messages \<le> length shorter * step_of (length messages) \<and>
    length shorter \<le> 99 \<and>
    sorted_wrt (<) (map (\<lambda>k. k * step_of (length messages)) [0..<length shorter]) \<and>
    shorter \<noteq> [] \<and> hd shorter = hd messages"
proof -
  let ?n = "length messages" and ?s = "step_of (length messages)"
  let ?c = "count_of ?n ?s"
  let ?out = "map (\<lambda>k. messages ! (k * ?s)) [0..<?c]"
  have s: "0 < ?s" using step_of_ge2 [OF assms] by simp
  have len: "length ?out = ?c" by simp
  have c0: "0 < ?c"
    using count_of_exhausts [OF s, of ?n] assms by (cases "?c = 0") simp_all
  have "shrink messages = Inr ?out" by (rule shrink_long [OF assms])
  moreover have "int ?s = \<lceil>real ?n / 99\<rceil>"
    by (simp add: step_of_def max_points_def)
  moreover have "?out = map (\<lambda>k. messages ! (k * ?s)) [0..<length ?out]"
    by (simp only: len)
  moreover have "\<forall>k < length ?out. k * ?s < ?n"
    using count_of_below [OF s] by (simp only: len) blast
  moreover have "?n \<le> length ?out * ?s"
    using count_of_exhausts [OF s] by (simp only: len)
  moreover have "length ?out \<le> 99"
    using count_of_bound [OF s step_of_covers] by (simp only: len)
  moreover have "sorted_wrt (<) (map (\<lambda>k. k * ?s) [0..<length ?out])"
    by (rule multiples_increasing [OF s])
  moreover have "?out \<noteq> []" using c0 by simp
  moreover have "hd ?out = hd messages"
  proof -
    have "messages \<noteq> []" using assms by auto
    then show ?thesis using c0 by (simp add: hd_map hd_conv_nth)
  qed
  ultimately show ?thesis by blast
qed

theorem shrink_stride_witness:
  "\<exists>shorter. shrink (map (\<lambda>i. \<lparr>lat = int i + 1, lon = 0, alt = 0\<rparr>) [0..<150]) = Inr shorter \<and>
     length shorter \<le> 99 \<and> shorter \<noteq> [] \<and>
     150 \<le> length shorter * step_of 150"
  using shrink_stride [of "map (\<lambda>i. \<lparr>lat = int i + 1, lon = 0, alt = 0\<rparr>) [0..<150]"]
  by (simp del: upt_Suc upt_rec_numeral) blast

text \<open>
  Claim C2. For a list of at most 99 position records the sampler returns the list itself:
  the same records, as many and in the same order.
\<close>

theorem shrink_identity:
  assumes "length messages \<le> 99"
  shows "shrink messages = Inr messages"
  using assms by (rule shrink_short)

theorem shrink_identity_witness:
  "shrink [\<lparr>lat = 5, lon = 0, alt = 7\<rparr>, \<lparr>lat = -3, lon = 4, alt = 0\<rparr>] =
     Inr [\<lparr>lat = 5, lon = 0, alt = 7\<rparr>, \<lparr>lat = -3, lon = 4, alt = 0\<rparr>]"
  using shrink_identity [of "[\<lparr>lat = 5, lon = 0, alt = 7\<rparr>, \<lparr>lat = -3, lon = 4, alt = 0\<rparr>]"]
  by simp

subsection \<open>The mission build loop\<close>

lemma add_waypoints_trace:
  "trace (add_waypoints messages s) = trace s @ map (\<lambda>pt. CmdsAdd (waypoint_command pt)) messages"
  by (induction messages arbitrary: s) (simp_all add: cmds_add_def request_def)

lemma add_waypoints_commands:
  "commands (add_waypoints messages s) = commands s @ map waypoint_command messages"
  by (induction messages arbitrary: s) (simp_all add: cmds_add_def request_def)

lemma add_waypoints_tick: "tick (add_waypoints messages s) = tick s"
  by (induction messages arbitrary: s) (simp_all add: cmds_add_def request_def)

text \<open>
  Claim C4. The build loop adds one command per record, in the order of the records, and
  each command has the record's latitude and longitude divided by \<open>10\<^sup>7\<close>, the altitude 30
  whatever the record's altitude is, the frame global-relative-altitude and the
  command navigate-to-waypoint. This holds for every list of records, the empty one
  included.
\<close>

theorem mission_build_loop:
  "trace (add_waypoints messages s) = trace s @ map (\<lambda>pt. CmdsAdd
       \<lparr>target_system = 0, target_component = 0, seq = 0,
        frame = MAV_FRAME_GLOBAL_RELATIVE_ALT, command = MAV_CMD_NAV_WAYPOINT,
        current = 0, autocontinue = 0, param1 = 0, param2 = 0, param3 = 0, param4 = 0,
        wp_x = real_of_int (lat pt) / 10000000, wp_y = real_of_int (lon pt) / 10000000,
        wp_z = 30\<rparr>) messages"
  by (simp add: add_waypoints_trace waypoint_command_def Command_def)

subsection \<open>Distances\<close>

lemma get_distance_metres_nonneg: "0 \<le> get_distance_metres a b"
  by (simp add: get_distance_metres_def Let_def)

text \<open>
  Claim C8. The distance from a location to itself is 0, the distance is the same in both
  directions, and it is never negative: it is the Euclidean norm of the differences of
  latitude and longitude, times 111319.5.
\<close>

theorem get_distance_metres_metric:
  "get_distance_metres a a = 0 \<and>
   get_distance_metres a b = get_distance_metres b a \<and>
   0 \<le> get_distance_metres a b \<and>
   get_distance_metres a b =
     sqrt ((loc_lat b - loc_lat a)\<^sup>2 + (loc_lon b - loc_lon a)\<^sup>2) * 111319.5"
proof -
  have sq: "(u - v) * (u - v) = (v - u) * (v - u)" for u v :: real
    by (simp add: algebra_simps)
  have "get_distance_metres a b = get_distance_metres b a"
    unfolding get_distance_metres_def Let_def
    by (simp only: sq [of "loc_lat b"] sq [of "loc_lon b"])
  then show ?thesis
    by (simp add: get_distance_metres_def Let_def power2_eq_square)
qed

text \<open>
  Claim C5, as the code has it. The result is \<^verbatim>\<open>None\<close> exactly when the cursor is 0. For a
  cursor from 1 up to the number of commands the result is a number that is not negative,
  the distance from the vehicle's global position to the coordinates stored in the
  command at index cursor - 1. For a cursor beyond the number of commands the read of
  that command raises \<^verbatim>\<open>IndexError\<close>, so nothing is returned.
\<close>

theorem distance_to_current_waypoint_cases:
  "(distance_to_current_waypoint obs cmds = Inr None \<longleftrightarrow> commands_next obs = 0) \<and>
   (1 \<le> commands_next obs \<and> commands_next obs \<le> length cmds \<longrightarrow>
      (\<exists>d. distance_to_current_waypoint obs cmds = Inr (Some d) \<and> 0 \<le> d \<and>
           d = get_distance_metres (global_frame obs)
                 (LocationGlobalRelative (wp_x (cmds ! (commands_next obs - 1)))
                    (wp_y (cmds ! (commands_next obs - 1)))
                    (wp_z (cmds ! (commands_next obs - 1)))))) \<and>
   (length cmds < commands_next obs \<longrightarrow> distance_to_current_waypoint obs cmds = Inl IndexError)"
  by (auto simp add: distance_to_current_waypoint_def getitem_def Let_def
        get_distance_metres_nonneg)

theorem distance_to_current_waypoint_cases_witness:
  "\<exists>d. distance_to_current_waypoint
        \<lparr>mode_name = ''AUTO'', armed = True, rel_alt = 30,
         global_frame = \<lparr>loc_lat = 1, loc_lon = 2, loc_alt = 3\<rparr>, commands_next = 1, clock = 0\<rparr>
        [waypoint_command \<lparr>lat = 10000000, lon = 20000000, alt = 0\<rparr>] = Inr (Some d) \<and> 0 \<le> d"
  using distance_to_current_waypoint_cases
    [of "\<lparr>mode_name = ''AUTO'', armed = True, rel_alt = 30,
         global_frame = \<lparr>loc_lat = 1, loc_lon = 2, loc_alt = 3\<rparr>, commands_next = 1, clock = 0\<rparr>"
        "[waypoint_command \<lparr>lat = 10000000, lon = 20000000, alt = 0\<rparr>]"]
  by simp

text \<open>The claim as the specification states it fails where the cursor is 3 and the mission
  has two commands: the call raises.\<close>

theorem distance_to_current_waypoint_out_of_range:
  "distance_to_current_waypoint
        \<lparr>mode_name = ''AUTO'', armed = True, rel_alt = 30,
         global_frame = \<lparr>loc_lat = 1, loc_lon = 2, loc_alt = 3\<rparr>, commands_next = 3, clock = 0\<rparr>
        [waypoint_command \<lparr>lat = 10000000, lon = 20000000, alt = 0\<rparr>,
         waypoint_command \<lparr>lat = 10000001, lon = 20000000, alt = 0\<rparr>] = Inl IndexError"
  by (simp add: distance_to_current_waypoint_def getitem_def)

subsection \<open>The run before the flight\<close>

lemma flying_world_simps:
  "mode_name (flying_world t) = (if t < 2 then ''STABILIZE'' else if t < 6 then ''GUIDED''
                   else if t < 10 then ''AUTO'' else ''RTL'')"
  "armed (flying_world t) = (3 \<le> t)"
  "rel_alt (flying_world t) = (if t < 5 then 10 else 29)"
  "commands_next (flying_world t) = (if t < 8 then 1 else 2)"
  "clock (flying_world t) = 1000 + real t"
  by (simp_all add: flying_world_def)

lemma shrink_keeps_first:
  "\<exists>messages. shrink (m0 # kept) = Inr (m0 # messages)"
proof (cases "length (m0 # kept) \<le> 99")
  case True
  then show ?thesis using shrink_short [of "m0 # kept"] by simp
next
  case False
  then have long: "99 < length (m0 # kept)" by simp
  let ?n = "length (m0 # kept)"
  let ?s = "step_of ?n"
  have s: "0 < ?s" using step_of_ge2 [OF long] by simp
  have "0 < count_of ?n ?s"
    using count_of_exhausts [OF s, of ?n] by (cases "count_of ?n ?s = 0") simp_all
  then obtain c where c: "count_of ?n ?s = Suc c"
    by (cases "count_of ?n ?s") simp_all
  have "[0..<Suc c] = 0 # [Suc 0..<Suc c]"
    by (simp only: upt_conv_Cons [of 0 "Suc c"] zero_less_Suc)
  then have "map (\<lambda>k. (m0 # kept) ! (k * ?s)) [0..<count_of ?n ?s] =
      m0 # map (\<lambda>k. (m0 # kept) ! (k * ?s)) [Suc 0..<Suc c]"
    by (simp only: c list.map) simp
  then show ?thesis using shrink_long [OF long] by (simp only:) blast
qed

text \<open>
  Claim C6. When the log yields no usable position record, the run ends at
  \<^verbatim>\<open>exit(0)\<close> in line 101 with no request made: nothing is downloaded or launched, no
  connection is opened, and the mission is neither cleared, extended nor uploaded.
\<close>

theorem empty_log_exits:
  assumes "recv_loop mlog [] = []"
  shows "main w percent_f a mlog = Some (Inl (Exit 0, \<lparr>tick = 0, trace = [], commands = []\<rparr>))"
  using assms
  by (simp add: main_def position_messages_from_tlog_def shrink_short init_state_def)

theorem empty_log_exits_witness:
  "main stuck_world (\<lambda>v. ''0.000000'') \<lparr>connect = None, tlog = ''flight.tlog''\<rparr>
        [Recv \<lparr>lat = 0, lon = 5, alt = 1\<rparr>, Raises, Recv \<lparr>lat = 7, lon = 5, alt = 1\<rparr>] =
     Some (Inl (Exit 0, \<lparr>tick = 0, trace = [], commands = []\<rparr>))"
  using empty_log_exits [of "[Recv \<lparr>lat = 0, lon = 5, alt = 1\<rparr>, Raises, Recv \<lparr>lat = 7, lon = 5, alt = 1\<rparr>]"]
  by simp

text \<open>Every loop and every phase only adds requests to those already made.\<close>

lemma wait_for_mode_trace:
  assumes "wait_for_mode w name s = Some r"
  shows "\<exists>ys. trace r = trace s @ ys"
proof (rule wait_for_mode.raw_induct
    [where P = "\<lambda>w name s r. \<exists>ys. trace r = trace s @ ys", OF _ assms])
  fix f w name s and r :: state
  assume IH: "\<And>w name s r. f w name s = Some r \<Longrightarrow> \<exists>ys. trace r = trace s @ ys"
    and eq: "(if mode_name (w (tick s)) \<noteq> name
              then f w name (sleep (request (SetMode name) s)) else Some s) = Some r"
  show "\<exists>ys. trace r = trace s @ ys"
  proof (cases "mode_name (w (tick s)) = name")
    case True
    then show ?thesis using eq by simp
  next
    case False
    then have "f w name (sleep (request (SetMode name) s)) = Some r"
      using eq by simp
    then obtain ys where "trace r = trace (sleep (request (SetMode name) s)) @ ys"
      using IH by blast
    then show ?thesis by (simp add: sleep_def request_def)
  qed
qed

lemma wait_for_armed_trace:
  assumes "wait_for_armed w s = Some r"
  shows "\<exists>ys. trace r = trace s @ ys"
proof (rule wait_for_armed.raw_induct
    [where P = "\<lambda>w s r. \<exists>ys. trace r = trace s @ ys", OF _ assms])
  fix f w s and r :: state
  assume IH: "\<And>w s r. f w s = Some r \<Longrightarrow> \<exists>ys. trace r = trace s @ ys"
    and eq: "(if \<not> armed (w (tick s))
              then f w (sleep (request (SetArmed True) s)) else Some s) = Some r"
  show "\<exists>ys. trace r = trace s @ ys"
  proof (cases "armed (w (tick s))")
    case True
    then show ?thesis using eq by simp
  next
    case False
    then have "f w (sleep (request (SetArmed True) s)) = Some r"
      using eq by simp
    then obtain ys where "trace r = trace (sleep (request (SetArmed True) s)) @ ys"
      using IH by blast
    then show ?thesis by (simp add: sleep_def request_def)
  qed
qed

lemma wait_for_altitude_trace:
  assumes "wait_for_altitude w a s = Some r"
  shows "trace r = trace s"
proof (rule wait_for_altitude.raw_induct
    [where P = "\<lambda>w a s r. trace r = trace s", OF _ assms])
  fix f w s and a :: real and r :: state
  assume IH: "\<And>w a s r. f w a s = Some r \<Longrightarrow> trace r = trace s"
    and eq: "(let requiredAlt = a * 0.95 in
              if rel_alt (w (tick s)) \<ge> requiredAlt then Some s else f w a (sleep s)) = Some r"
  show "trace r = trace s"
  proof (cases "a * 0.95 \<le> rel_alt (w (tick s))")
    case True
    then show ?thesis using eq by (simp add: Let_def)
  next
    case False
    then have "f w a (sleep s) = Some r"
      using eq by (simp add: Let_def)
    then have "trace r = trace (sleep s)"
      by (rule IH)
    then show ?thesis by (simp add: sleep_def)
  qed
qed

lemma monitor_mission_trace:
  assumes "monitor_mission w t0 n s = Some res"
  shows "trace (final_state res) = trace s"
proof (rule monitor_mission.raw_induct
    [where P = "\<lambda>w t0 n s res. trace (final_state res) = trace s", OF _ assms])
  fix f w s and t0 :: real and n :: nat and res :: "(halt \<times> state) + state"
  assume IH: "\<And>w t0 n s res. f w t0 n s = Some res \<Longrightarrow> trace (final_state res) = trace s"
    and eq: "(if clock (w (tick s)) - t0 < 60 then
        (let nextwaypoint = commands_next (w (tick s)) in
         case distance_to_current_waypoint (w (tick s)) (commands s) of
           Inl e \<Rightarrow> Some (Inl (Raise e, s))
         | Inr d \<Rightarrow>
             if nextwaypoint = n then Some (Inr s)
             else f w t0 n (sleep s))
      else Some (Inr s)) = Some res"
  show "trace (final_state res) = trace s"
  proof (cases "f w t0 n (sleep s) = Some res")
    case True
    then have "trace (final_state res) = trace (sleep s)" by (rule IH)
    then show ?thesis by (simp add: sleep_def)
  next
    case False
    then have "res = Inr s \<or> (\<exists>e. res = Inl (Raise e, s))"
      using eq by (auto simp add: Let_def split: if_splits sum.splits)
    then show ?thesis by (auto simp add: final_state_def)
  qed
qed

lemma rtl_phase_trace:
  assumes "rtl_phase w sitl s = Some r"
  shows "\<exists>ys. trace r = trace s @ ys"
proof -
  obtain s1 where s1: "wait_for_mode w ''RTL'' s = Some s1"
    and r: "r = (if sitl then request SitlStop (request VehicleClose s1) else request VehicleClose s1)"
    using assms by (auto simp add: rtl_phase_def Let_def bind_eq_Some_conv)
  obtain ys where "trace s1 = trace s @ ys"
    using wait_for_mode_trace [OF s1] by blast
  then show ?thesis using r by (simp add: request_def)
qed

lemma monitor_phase_trace:
  assumes "monitor_phase w n sitl s = Some res"
  shows "\<exists>ys. trace (final_state res) = trace s @ ys"
proof -
  obtain r where r: "monitor_mission w (clock (w (tick s))) n s = Some r"
    and res: "(case r of Inl h \<Rightarrow> Some (Inl h)
               | Inr s1 \<Rightarrow> map_option Inr (rtl_phase w sitl s1)) = Some res"
    using assms by (auto simp add: monitor_phase_def Let_def bind_eq_Some_conv)
  have tr: "trace (final_state r) = trace s" by (rule monitor_mission_trace [OF r])
  show ?thesis
  proof (cases r)
    case (Inl h)
    then show ?thesis using res tr by simp
  next
    case (Inr s1)
    then obtain s2 where s2: "rtl_phase w sitl s1 = Some s2" and "res = Inr s2"
      using res by auto
    then show ?thesis
      using rtl_phase_trace [OF s2] tr Inr by (auto simp add: final_state_def)
  qed
qed

lemma auto_phase_trace:
  assumes "auto_phase w n sitl s = Some res"
  shows "\<exists>ys. trace (final_state res) = trace s @ ys"
proof -
  obtain s1 where s1: "wait_for_mode w ''AUTO'' (request (SetNext 0) s) = Some s1"
    and res: "monitor_phase w n sitl s1 = Some res"
    using assms by (auto simp add: auto_phase_def bind_eq_Some_conv)
  obtain ys where "trace s1 = trace (request (SetNext 0) s) @ ys"
    using wait_for_mode_trace [OF s1] by blast
  moreover obtain zs where "trace (final_state res) = trace s1 @ zs"
    using monitor_phase_trace [OF res] by blast
  ultimately show ?thesis by (simp add: request_def)
qed

lemma takeoff_phase_trace:
  assumes "takeoff_phase w n sitl s = Some res"
  shows "\<exists>ys. trace (final_state res) = trace s @ ys"
proof -
  obtain s1 where s1: "wait_for_altitude w 30 (request (SimpleTakeoff 30) s) = Some s1"
    and res: "auto_phase w n sitl s1 = Some res"
    using assms by (auto simp add: takeoff_phase_def Let_def bind_eq_Some_conv)
  have "trace s1 = trace (request (SimpleTakeoff 30) s)"
    by (rule wait_for_altitude_trace [OF s1])
  moreover obtain zs where "trace (final_state res) = trace s1 @ zs"
    using auto_phase_trace [OF res] by blast
  ultimately show ?thesis by (simp add: request_def)
qed

lemma arming_phase_trace:
  assumes "arming_phase w n sitl s = Some res"
  shows "\<exists>ys. trace (final_state res) = trace s @ ys"
proof -
  obtain s1 where s1: "wait_for_armed w s = Some s1"
    and res: "takeoff_phase w n sitl s1 = Some res"
    using assms by (auto simp add: arming_phase_def bind_eq_Some_conv)
  obtain ys where "trace s1 = trace s @ ys"
    using wait_for_armed_trace [OF s1] by blast
  moreover obtain zs where "trace (final_state res) = trace s1 @ zs"
    using takeoff_phase_trace [OF res] by blast
  ultimately show ?thesis by simp
qed

lemma guided_phase_trace:
  assumes "guided_phase w n sitl s = Some res"
  shows "\<exists>ys. trace (final_state res) = trace s @ ys"
proof -
  obtain s1 where s1: "wait_for_mode w ''GUIDED'' s = Some s1"
    and res: "arming_phase w n sitl s1 = Some res"
    using assms by (auto simp add: guided_phase_def bind_eq_Some_conv)
  obtain ys where "trace s1 = trace s @ ys"
    using wait_for_mode_trace [OF s1] by blast
  moreover obtain zs where "trace (final_state res) = trace s1 @ zs"
    using arming_phase_trace [OF res] by blast
  ultimately show ?thesis by simp
qed

lemma upload_mission_trace:
  "trace (upload_mission messages s) =
     trace s @ [CmdsWaitReady, CmdsClear] @
       map (\<lambda>pt. CmdsAdd (waypoint_command pt)) messages @ [CmdsUpload]"
  by (simp add: upload_mission_def request_def cmds_clear_def add_waypoints_trace)


text \<open>The six-decimal text of a quotient \<open>c / 10\<^sup>7\<close> stands for a number within half a
  millionth of it.\<close>

lemma six_decimals_nearest: "six_decimals percent_f_nearest"
  unfolding six_decimals_def
proof
  fix v :: real
  let ?x = "\<bar>v\<bar> * 1000000"
  have "0 \<le> round ?x" by (simp add: round_def)
  then have eq: "real (nat (round ?x)) = of_int (round ?x)" by simp
  have "\<bar>real (nat (round ?x)) - ?x\<bar> \<le> 1 / 2"
    unfolding eq by (rule of_int_round_abs_le)
  then show "\<exists>m. \<bar>real m - ?x\<bar> \<le> 1 / 2 \<and>
      percent_f_nearest v = (if v < 0 then ''-'' else []) @ fixed6 m"
    unfolding percent_f_nearest_def by blast
qed

lemma six_decimals_quotient:
  assumes "six_decimals pf"
  shows "\<exists>m. pf (real_of_int c / 10000000) = (if c < 0 then ''-'' else []) @ fixed6 m \<and>
           \<bar>real m / 1000000 - \<bar>real_of_int c\<bar> / 10000000\<bar> \<le> 5 / 10000000"
proof -
  let ?v = "real_of_int c / 10000000"
  obtain m where m: "\<bar>real m - \<bar>?v\<bar> * 1000000\<bar> \<le> 1 / 2"
    and pf: "pf ?v = (if ?v < 0 then ''-'' else []) @ fixed6 m"
    using assms unfolding six_decimals_def by blast
  have "real m / 1000000 - \<bar>real_of_int c\<bar> / 10000000 = (real m - \<bar>?v\<bar> * 1000000) / 1000000"
    by (simp add: field_simps)
  then have "\<bar>real m / 1000000 - \<bar>real_of_int c\<bar> / 10000000\<bar> =
      \<bar>real m - \<bar>?v\<bar> * 1000000\<bar> / 1000000"
    by (simp only: abs_divide) simp
  also have "\<dots> \<le> (1 / 2) / 1000000"
    using m by (rule divide_right_mono) simp
  finally have "\<bar>real m / 1000000 - \<bar>real_of_int c\<bar> / 10000000\<bar> \<le> 5 / 10000000"
    by simp
  moreover have "(?v < 0) = (c < 0)" by simp
  ultimately show ?thesis using pf by (simp only:) blast
qed

text \<open>
  Claim C10, as the code has it. With no connection target (none given, or the empty
  string) and a first usable record \<open>m0\<close> in the log, \<open>m0\<close> is also the first record after
  sampling, and the run is the flight from a state in which exactly these requests have
  been made, in this order: the simulator's download, its launch with the home argument,
  the connection to the simulator's address, and the upload of the mission. The home
  argument holds \<open>lat m0 / 10\<^sup>7\<close> and \<open>lon m0 / 10\<^sup>7\<close> as \<^verbatim>\<open>'%f'\<close> writes them, with six
  decimals: numbers within \<open>0.0000005\<close> of the coordinates, not the coordinates
  themselves. Every run that ends has made these requests first. The simulator starter,
  given a latitude without a longitude or a longitude without a latitude, exits with
  status 1 after the download and launches nothing.
\<close>

theorem simulator_home:
  assumes "connect a = None \<or> connect a = Some []"
    and "recv_loop mlog [] = m0 # kept"
    and "six_decimals percent_f"
  shows "\<exists>messages s0 mla mlo.
      position_messages_from_tlog mlog = Inr (m0 # messages) \<and>
      main w percent_f a mlog = guided_phase w (length (m0 # messages)) True s0 \<and>
      trace s0 =
        [SitlDownload ''copter'' ''3.3'',
         SitlLaunch [''-I0'', ''--model'', ''quad'',
           ''--home='' @ (if lat m0 < 0 then ''-'' else []) @ fixed6 mla @ '','' @
             (if lon m0 < 0 then ''-'' else []) @ fixed6 mlo @ '',584,353''],
         Connect ''tcp:127.0.0.1:5760'', CmdsWaitReady, CmdsClear] @
        map (\<lambda>pt. CmdsAdd (waypoint_command pt)) (m0 # messages) @ [CmdsUpload] \<and>
      \<bar>real mla / 1000000 - \<bar>real_of_int (lat m0)\<bar> / 10000000\<bar> \<le> 5 / 10000000 \<and>
      \<bar>real mlo / 1000000 - \<bar>real_of_int (lon m0)\<bar> / 10000000\<bar> \<le> 5 / 10000000 \<and>
      (\<forall>res. main w percent_f a mlog = Some res \<longrightarrow>
         (\<exists>rest. trace (final_state res) = trace s0 @ rest)) \<and>
      start_default_sitl percent_f (Some la) None s =
        Inl (Exit 1, s\<lparr>trace := trace s @ [SitlDownload ''copter'' ''3.3'']\<rparr>) \<and>
      start_default_sitl percent_f None (Some lo) s =
        Inl (Exit 1, s\<lparr>trace := trace s @ [SitlDownload ''copter'' ''3.3'']\<rparr>)"
proof -
  obtain messages where sh: "shrink (m0 # kept) = Inr (m0 # messages)"
    using shrink_keeps_first by blast
  obtain mla where mla:
    "percent_f (real_of_int (lat m0) / 10000000) = (if lat m0 < 0 then ''-'' else []) @ fixed6 mla"
    "\<bar>real mla / 1000000 - \<bar>real_of_int (lat m0)\<bar> / 10000000\<bar> \<le> 5 / 10000000"
    using six_decimals_quotient [OF assms(3), of "lat m0"] by blast
  obtain mlo where mlo:
    "percent_f (real_of_int (lon m0) / 10000000) = (if lon m0 < 0 then ''-'' else []) @ fixed6 mlo"
    "\<bar>real mlo / 1000000 - \<bar>real_of_int (lon m0)\<bar> / 10000000\<bar> \<le> 5 / 10000000"
    using six_decimals_quotient [OF assms(3), of "lon m0"] by blast
  let ?home = "''--home='' @ (if lat m0 < 0 then ''-'' else []) @ fixed6 mla @ '','' @
             (if lon m0 < 0 then ''-'' else []) @ fixed6 mlo @ '',584,353''"
  let ?s1 = "\<lparr>tick = 0, trace = [SitlDownload ''copter'' ''3.3'',
         SitlLaunch [''-I0'', ''--model'', ''quad'', ?home]], commands = []\<rparr>"
  let ?s0 = "upload_mission (m0 # messages) (request (Connect ''tcp:127.0.0.1:5760'') ?s1)"
  have link: "choose_link percent_f a (m0 # messages) init_state =
      Inr (''tcp:127.0.0.1:5760'', True, ?s1)"
    using assms(1)
    by (auto simp add: choose_link_def getitem_def start_default_sitl_def Let_def
        request_def init_state_def mla(1) mlo(1))
  have pm: "position_messages_from_tlog mlog = Inr (m0 # messages)"
    using assms(2) sh by (simp add: position_messages_from_tlog_def)
  have run: "main w percent_f a mlog = guided_phase w (length (m0 # messages)) True ?s0"
    using pm link by (simp add: main_def)
  have tr: "trace ?s0 =
        [SitlDownload ''copter'' ''3.3'',
         SitlLaunch [''-I0'', ''--model'', ''quad'', ?home],
         Connect ''tcp:127.0.0.1:5760'', CmdsWaitReady, CmdsClear] @
        map (\<lambda>pt. CmdsAdd (waypoint_command pt)) (m0 # messages) @ [CmdsUpload]"
    by (simp add: upload_mission_trace request_def)
  have fin: "\<forall>res. main w percent_f a mlog = Some res \<longrightarrow>
         (\<exists>rest. trace (final_state res) = trace ?s0 @ rest)"
    unfolding run using guided_phase_trace by blast
  have one: "start_default_sitl percent_f (Some la) None s =
        Inl (Exit 1, s\<lparr>trace := trace s @ [SitlDownload ''copter'' ''3.3'']\<rparr>)"
    "start_default_sitl percent_f None (Some lo) s =
        Inl (Exit 1, s\<lparr>trace := trace s @ [SitlDownload ''copter'' ''3.3'']\<rparr>)"
    by (simp_all add: start_default_sitl_def Let_def request_def)
  show ?thesis
    using pm run tr mla(2) mlo(2) fin one by blast
qed


theorem simulator_home_witness:
  "\<exists>s0. main flying_world percent_f_nearest \<lparr>connect = None, tlog = ''flight.tlog''\<rparr>
          [Recv \<lparr>lat = 0, lon = 1, alt = 2\<rparr>,
           Recv \<lparr>lat = 474001234, lon = 85002468, alt = 500\<rparr>] =
        guided_phase flying_world 1 True s0 \<and>
      trace s0 =
        [SitlDownload ''copter'' ''3.3'',
         SitlLaunch [''-I0'', ''--model'', ''quad'', ''--home=47.400123,8.500247,584,353''],
         Connect ''tcp:127.0.0.1:5760'', CmdsWaitReady, CmdsClear,
         CmdsAdd (waypoint_command \<lparr>lat = 474001234, lon = 85002468, alt = 500\<rparr>),
         CmdsUpload]"
proof -
  let ?m = "\<lparr>lat = 474001234, lon = 85002468, alt = 500\<rparr>"
  let ?log = "[Recv \<lparr>lat = 0, lon = 1, alt = 2\<rparr>, Recv ?m]"
  let ?a = "\<lparr>connect = None, tlog = ''flight.tlog''\<rparr>"
  have h1: "connect ?a = None \<or> connect ?a = Some []" by simp
  have h2: "recv_loop ?log [] = ?m # []" by simp
  obtain messages s0 mla mlo where
    pm: "position_messages_from_tlog ?log = Inr (?m # messages)"
    and run: "main flying_world percent_f_nearest ?a ?log =
                guided_phase flying_world (length (?m # messages)) True s0"
    and tr: "trace s0 =
        [SitlDownload ''copter'' ''3.3'',
         SitlLaunch [''-I0'', ''--model'', ''quad'',
           ''--home='' @ (if lat ?m < 0 then ''-'' else []) @ fixed6 mla @ '','' @
             (if lon ?m < 0 then ''-'' else []) @ fixed6 mlo @ '',584,353''],
         Connect ''tcp:127.0.0.1:5760'', CmdsWaitReady, CmdsClear] @
        map (\<lambda>pt. CmdsAdd (waypoint_command pt)) (?m # messages) @ [CmdsUpload]"
    and la: "\<bar>real mla / 1000000 - \<bar>real_of_int (lat ?m)\<bar> / 10000000\<bar> \<le> 5 / 10000000"
    and lo: "\<bar>real mlo / 1000000 - \<bar>real_of_int (lon ?m)\<bar> / 10000000\<bar> \<le> 5 / 10000000"
    using simulator_home [OF h1 h2 six_decimals_nearest, of flying_world 0 init_state 0]
    by blast
  have "position_messages_from_tlog ?log = Inr [?m]"
    by (simp add: position_messages_from_tlog_def shrink_short)
  then have ms: "messages = []" using pm by simp
  have "\<bar>real mla - 47400123.4\<bar> \<le> 1 / 2"
    using la by (simp add: field_simps)
  then have mla: "mla = 47400123" by linarith
  have "\<bar>real mlo - 8500246.8\<bar> \<le> 1 / 2"
    using lo by (simp add: field_simps)
  then have mlo: "mlo = 8500247" by linarith
  have f1: "fixed6 47400123 = ''47.400123''"
    by (simp add: fixed6_def digits_of.simps digit_char_def)
  have f2: "fixed6 8500247 = ''8.500247''"
    by (simp add: fixed6_def digits_of.simps digit_char_def)
  have "trace s0 =
        [SitlDownload ''copter'' ''3.3'',
         SitlLaunch [''-I0'', ''--model'', ''quad'', ''--home=47.400123,8.500247,584,353''],
         Connect ''tcp:127.0.0.1:5760'', CmdsWaitReady, CmdsClear,
         CmdsAdd (waypoint_command ?m), CmdsUpload]"
    using tr by (simp add: ms mla mlo f1 f2)
  then show ?thesis using run ms by auto
qed

text \<open>The claim as the specification states it, a home of exactly \<open>lat / 10\<^sup>7\<close> and
  \<open>lon / 10\<^sup>7\<close>, fails for a first record at latitude 474001234 and longitude 85002468:
  the simulator is launched with the home 47.400123, 8.500247.\<close>

theorem simulator_home_six_decimals:
  "main flying_world percent_f_nearest \<lparr>connect = None, tlog = ''flight.tlog''\<rparr>
     [Recv \<lparr>lat = 474001234, lon = 85002468, alt = 500\<rparr>, Recv \<lparr>lat = 0, lon = 0, alt = 0\<rparr>,
      Recv \<lparr>lat = 474001000, lon = 85002000, alt = 510\<rparr>] =
   Some (Inr \<lparr>tick = 10,
     trace = [SitlDownload ''copter'' ''3.3'',
              SitlLaunch [''-I0'', ''--model'', ''quad'', ''--home=47.400123,8.500247,584,353''],
              Connect ''tcp:127.0.0.1:5760'', CmdsWaitReady, CmdsClear,
              CmdsAdd (waypoint_command \<lparr>lat = 474001234, lon = 85002468, alt = 500\<rparr>),
              CmdsAdd (waypoint_command \<lparr>lat = 474001000, lon = 85002000, alt = 510\<rparr>),
              CmdsUpload, SetMode ''GUIDED'', SetMode ''GUIDED'', SetArmed True,
              SimpleTakeoff 30, SetNext 0, SetMode ''AUTO'', SetMode ''RTL'', SetMode ''RTL'',
              VehicleClose, SitlStop],
     commands = [waypoint_command \<lparr>lat = 474001234, lon = 85002468, alt = 500\<rparr>,
                 waypoint_command \<lparr>lat = 474001000, lon = 85002000, alt = 510\<rparr>]\<rparr>) \<and>
   (47.400123 :: real) \<noteq> 474001234 / 10000000 \<and>
   (8.500247 :: real) \<noteq> 85002468 / 10000000"
proof -
  have p1: "percent_f_nearest (237000617 / 5000000) = ''47.400123''"
    by (simp add: percent_f_nearest_def round_def fixed6_def digits_of.simps digit_char_def)
  have p2: "percent_f_nearest (21250617 / 2500000) = ''8.500247''"
    by (simp add: percent_f_nearest_def round_def fixed6_def digits_of.simps digit_char_def)
  show ?thesis
    by (simp add: main_def position_messages_from_tlog_def shrink_def max_points_def
      choose_link_def getitem_def start_default_sitl_def Let_def init_state_def request_def
      upload_mission_def cmds_clear_def cmds_add_def guided_phase_def arming_phase_def
      takeoff_phase_def auto_phase_def monitor_phase_def rtl_phase_def sleep_def
      wait_for_mode.simps wait_for_armed.simps wait_for_altitude.simps monitor_mission.simps
      flying_world_simps distance_to_current_waypoint_def p1 p2)
qed


subsection \<open>The poll loops\<close>

text \<open>A poll loop that returns has seen what it waited for.\<close>

lemma wait_for_mode_Some:
  assumes "wait_for_mode w name s = Some r"
  shows "\<exists>t \<ge> tick s. mode_name (w t) = name"
proof (rule wait_for_mode.raw_induct
    [where P = "\<lambda>w name s r. \<exists>t \<ge> tick s. mode_name (w t) = name", OF _ assms])
  fix f w name s and r :: state
  assume IH: "\<And>w name s r. f w name s = Some r \<Longrightarrow> \<exists>t \<ge> tick s. mode_name (w t) = name"
    and eq: "(if mode_name (w (tick s)) \<noteq> name
              then f w name (sleep (request (SetMode name) s)) else Some s) = Some r"
  show "\<exists>t \<ge> tick s. mode_name (w t) = name"
  proof (cases "mode_name (w (tick s)) = name")
    case True
    then show ?thesis by blast
  next
    case False
    then have "f w name (sleep (request (SetMode name) s)) = Some r"
      using eq by simp
    then obtain t where t: "tick (sleep (request (SetMode name) s)) \<le> t" "mode_name (w t) = name"
      using IH by blast
    then have "tick s \<le> t" by (simp add: sleep_def request_def)
    then show ?thesis using t(2) by blast
  qed
qed

lemma wait_for_armed_Some:
  assumes "wait_for_armed w s = Some r"
  shows "\<exists>t \<ge> tick s. armed (w t)"
proof (rule wait_for_armed.raw_induct
    [where P = "\<lambda>w s r. \<exists>t \<ge> tick s. armed (w t)", OF _ assms])
  fix f w s and r :: state
  assume IH: "\<And>w s r. f w s = Some r \<Longrightarrow> \<exists>t \<ge> tick s. armed (w t)"
    and eq: "(if \<not> armed (w (tick s))
              then f w (sleep (request (SetArmed True) s)) else Some s) = Some r"
  show "\<exists>t \<ge> tick s. armed (w t)"
  proof (cases "armed (w (tick s))")
    case True
    then show ?thesis by blast
  next
    case False
    then have "f w (sleep (request (SetArmed True) s)) = Some r"
      using eq by simp
    then obtain t where t: "tick (sleep (request (SetArmed True) s)) \<le> t" "armed (w t)"
      using IH by blast
    then have "tick s \<le> t" by (simp add: sleep_def request_def)
    then show ?thesis using t(2) by blast
  qed
qed

lemma wait_for_altitude_Some:
  assumes "wait_for_altitude w a s = Some r"
  shows "\<exists>t \<ge> tick s. a * 0.95 \<le> rel_alt (w t)"
proof (rule wait_for_altitude.raw_induct
    [where P = "\<lambda>w a s r. \<exists>t \<ge> tick s. a * 0.95 \<le> rel_alt (w t)", OF _ assms])
  fix f w s and a :: real and r :: state
  assume IH: "\<And>w a s r. f w a s = Some r \<Longrightarrow> \<exists>t \<ge> tick s. a * 0.95 \<le> rel_alt (w t)"
    and eq: "(let requiredAlt = a * 0.95 in
              if rel_alt (w (tick s)) \<ge> requiredAlt then Some s else f w a (sleep s)) = Some r"
  show "\<exists>t \<ge> tick s. a * 0.95 \<le> rel_alt (w t)"
  proof (cases "a * 0.95 \<le> rel_alt (w (tick s))")
    case True
    then show ?thesis by blast
  next
    case False
    then have "f w a (sleep s) = Some r"
      using eq by (simp add: Let_def)
    then obtain t where t: "tick (sleep s) \<le> t" "a * 0.95 \<le> rel_alt (w t)"
      using IH by blast
    then have "tick s \<le> t" by (simp add: sleep_def)
    then show ?thesis using t(2) by blast
  qed
qed

lemma wait_for_mode_never:
  assumes "\<forall>t \<ge> tick s. mode_name (w t) \<noteq> name"
  shows "wait_for_mode w name s = None"
proof (cases "wait_for_mode w name s")
  case None
  then show ?thesis .
next
  case (Some r)
  then show ?thesis using wait_for_mode_Some assms by blast
qed

lemma wait_for_armed_never:
  assumes "\<forall>t \<ge> tick s. \<not> armed (w t)"
  shows "wait_for_armed w s = None"
proof (cases "wait_for_armed w s")
  case None
  then show ?thesis .
next
  case (Some r)
  then show ?thesis using wait_for_armed_Some assms by blast
qed

lemma wait_for_altitude_never:
  assumes "\<forall>t \<ge> tick s. rel_alt (w t) < a * 0.95"
  shows "wait_for_altitude w a s = None"
proof (cases "wait_for_altitude w a s")
  case None
  then show ?thesis .
next
  case (Some r)
  then obtain t where "tick s \<le> t" "a * 0.95 \<le> rel_alt (w t)"
    using wait_for_altitude_Some by blast
  then show ?thesis using assms by fastforce
qed

text \<open>The loops do end once the vehicle confirms.\<close>

lemma wait_for_mode_reaches:
  assumes "\<forall>j<k. mode_name (w (tick s + j)) \<noteq> name"
    and "mode_name (w (tick s + k)) = name"
  shows "wait_for_mode w name s =
     Some (s\<lparr>tick := tick s + k, trace := trace s @ replicate k (SetMode name)\<rparr>)"
  using assms
proof (induction k arbitrary: s)
  case 0
  then show ?case by (subst wait_for_mode.simps) simp
next
  case (Suc k)
  let ?s' = "sleep (request (SetMode name) s)"
  have "mode_name (w (tick s)) \<noteq> name"
    using Suc.prems(1) [rule_format, of 0] by simp
  then have step: "wait_for_mode w name s = wait_for_mode w name ?s'"
    by (subst wait_for_mode.simps) simp
  have "\<forall>j<k. mode_name (w (tick ?s' + j)) \<noteq> name"
  proof (intro allI impI)
    fix j assume "j < k"
    then have "Suc j < Suc k" by simp
    then show "mode_name (w (tick ?s' + j)) \<noteq> name"
      using Suc.prems(1) [rule_format, of "Suc j"] by (simp add: sleep_def request_def)
  qed
  moreover have "mode_name (w (tick ?s' + k)) = name"
    using Suc.prems(2) by (simp add: sleep_def request_def)
  ultimately have "wait_for_mode w name ?s' =
      Some (?s'\<lparr>tick := tick ?s' + k, trace := trace ?s' @ replicate k (SetMode name)\<rparr>)"
    by (rule Suc.IH)
  then show ?case
    using step by (simp add: sleep_def request_def replicate_app_Cons_same)
qed

text \<open>
  Claim C9. None of the five poll loops outside the monitoring window gives up: when,
  from the moment the loop starts, the vehicle never reports mode GUIDED, never reports
  being armed, never reports an altitude of at least \<open>0.95 \<times> 30\<close>, never reports mode AUTO,
  or never reports mode RTL, the loop in question never returns, and neither does the
  rest of the run that starts with it.
\<close>

theorem poll_loops_never_exit:
  "((\<forall>t \<ge> tick s. mode_name (w t) \<noteq> ''GUIDED'') \<longrightarrow>
      wait_for_mode w ''GUIDED'' s = None \<and> guided_phase w n sitl s = None) \<and>
   ((\<forall>t \<ge> tick s. \<not> armed (w t)) \<longrightarrow>
      wait_for_armed w s = None \<and> arming_phase w n sitl s = None) \<and>
   ((\<forall>t \<ge> tick s. rel_alt (w t) < 30 * 0.95) \<longrightarrow>
      wait_for_altitude w 30 (request (SimpleTakeoff 30) s) = None \<and>
      takeoff_phase w n sitl s = None) \<and>
   ((\<forall>t \<ge> tick s. mode_name (w t) \<noteq> ''AUTO'') \<longrightarrow>
      wait_for_mode w ''AUTO'' (request (SetNext 0) s) = None \<and> auto_phase w n sitl s = None) \<and>
   ((\<forall>t \<ge> tick s. mode_name (w t) \<noteq> ''RTL'') \<longrightarrow>
      wait_for_mode w ''RTL'' s = None \<and> rtl_phase w sitl s = None)"
proof -
  have g: "wait_for_mode w ''GUIDED'' s = None"
    if "\<forall>t \<ge> tick s. mode_name (w t) \<noteq> ''GUIDED''"
    using that by (rule wait_for_mode_never)
  have a: "wait_for_armed w s = None" if "\<forall>t \<ge> tick s. \<not> armed (w t)"
    using that by (rule wait_for_armed_never)
  have t: "wait_for_altitude w 30 (request (SimpleTakeoff 30) s) = None"
    if "\<forall>t \<ge> tick s. rel_alt (w t) < 30 * 0.95"
    using that by (intro wait_for_altitude_never) (simp add: request_def)
  have u: "wait_for_mode w ''AUTO'' (request (SetNext 0) s) = None"
    if "\<forall>t \<ge> tick s. mode_name (w t) \<noteq> ''AUTO''"
    using that by (intro wait_for_mode_never) (simp add: request_def)
  have r: "wait_for_mode w ''RTL'' s = None"
    if "\<forall>t \<ge> tick s. mode_name (w t) \<noteq> ''RTL''"
    using that by (rule wait_for_mode_never)
  show ?thesis
    using g a t u r
    by (simp add: guided_phase_def arming_phase_def takeoff_phase_def auto_phase_def
        rtl_phase_def Let_def)
qed

theorem poll_loops_never_exit_witness:
  "wait_for_mode stuck_world ''GUIDED'' init_state = None \<and>
   guided_phase stuck_world 2 True init_state = None \<and>
   wait_for_armed stuck_world init_state = None \<and>
   arming_phase stuck_world 2 True init_state = None \<and>
   wait_for_altitude stuck_world 30 (request (SimpleTakeoff 30) init_state) = None \<and>
   takeoff_phase stuck_world 2 True init_state = None \<and>
   wait_for_mode stuck_world ''AUTO'' (request (SetNext 0) init_state) = None \<and>
   auto_phase stuck_world 2 True init_state = None \<and>
   wait_for_mode stuck_world ''RTL'' init_state = None \<and>
   rtl_phase stuck_world True init_state = None"
  using poll_loops_never_exit [of init_state stuck_world 2 True]
  by (simp add: stuck_world_def)

subsection \<open>The monitoring loop\<close>

lemma distance_in_range:
  "commands_next obs \<le> length cmds \<Longrightarrow> \<exists>d. distance_to_current_waypoint obs cmds = Inr d"
  by (cases "commands_next obs = 0")
     (simp_all add: distance_to_current_waypoint_def getitem_def Let_def)

lemma monitor_mission_run:
  assumes "\<forall>j<k. clock (w (tick s + j)) - t0 < 60 \<and> commands_next (w (tick s + j)) \<noteq> n \<and>
             commands_next (w (tick s + j)) \<le> length (commands s)"
    and "\<not> clock (w (tick s + k)) - t0 < 60 \<or>
         (commands_next (w (tick s + k)) = n \<and> n \<le> length (commands s))"
  shows "monitor_mission w t0 n s = Some (Inr (s\<lparr>tick := tick s + k\<rparr>))"
  using assms
proof (induction k arbitrary: s)
  case 0
  show ?case
  proof (cases "clock (w (tick s)) - t0 < 60")
    case False
    then show ?thesis by (subst monitor_mission.simps) simp
  next
    case True
    then have hit: "commands_next (w (tick s)) = n" "n \<le> length (commands s)"
      using "0.prems"(2) by simp_all
    then obtain d where "distance_to_current_waypoint (w (tick s)) (commands s) = Inr d"
      using distance_in_range [of "w (tick s)" "commands s"] by auto
    then show ?thesis using True hit by (subst monitor_mission.simps) simp
  qed
next
  case (Suc k)
  have now: "clock (w (tick s)) - t0 < 60" "commands_next (w (tick s)) \<noteq> n"
    "commands_next (w (tick s)) \<le> length (commands s)"
    using Suc.prems(1) [rule_format, of 0] by simp_all
  obtain d where d: "distance_to_current_waypoint (w (tick s)) (commands s) = Inr d"
    using distance_in_range [OF now(3)] by auto
  have step: "monitor_mission w t0 n s = monitor_mission w t0 n (sleep s)"
    using now d by (subst monitor_mission.simps) simp
  have "\<forall>j<k. clock (w (tick (sleep s) + j)) - t0 < 60 \<and>
          commands_next (w (tick (sleep s) + j)) \<noteq> n \<and>
          commands_next (w (tick (sleep s) + j)) \<le> length (commands (sleep s))"
  proof (intro allI impI)
    fix j assume "j < k"
    then have "Suc j < Suc k" by simp
    then show "clock (w (tick (sleep s) + j)) - t0 < 60 \<and>
          commands_next (w (tick (sleep s) + j)) \<noteq> n \<and>
          commands_next (w (tick (sleep s) + j)) \<le> length (commands (sleep s))"
      using Suc.prems(1) [rule_format, of "Suc j"] by (simp add: sleep_def)
  qed
  moreover have "\<not> clock (w (tick (sleep s) + k)) - t0 < 60 \<or>
         (commands_next (w (tick (sleep s) + k)) = n \<and> n \<le> length (commands (sleep s)))"
    using Suc.prems(2) by (simp add: sleep_def)
  ultimately have "monitor_mission w t0 n (sleep s) = Some (Inr ((sleep s)\<lparr>tick := tick (sleep s) + k\<rparr>))"
    by (rule Suc.IH)
  then show ?case using step by (simp add: sleep_def)
qed

lemma upload_mission_commands:
  "commands (upload_mission messages s) = map waypoint_command messages"
  by (simp add: upload_mission_def request_def cmds_clear_def add_waypoints_commands)

lemma wait_for_mode_commands:
  assumes "wait_for_mode w name s = Some r"
  shows "commands r = commands s"
proof (rule wait_for_mode.raw_induct
    [where P = "\<lambda>w name s r. commands r = commands s", OF _ assms])
  fix f w name s and r :: state
  assume IH: "\<And>w name s r. f w name s = Some r \<Longrightarrow> commands r = commands s"
    and eq: "(if mode_name (w (tick s)) \<noteq> name
              then f w name (sleep (request (SetMode name) s)) else Some s) = Some r"
  show "commands r = commands s"
  proof (cases "mode_name (w (tick s)) = name")
    case True
    then show ?thesis using eq by simp
  next
    case False
    then have "f w name (sleep (request (SetMode name) s)) = Some r"
      using eq by simp
    then have "commands r = commands (sleep (request (SetMode name) s))"
      by (rule IH)
    then show ?thesis by (simp add: sleep_def request_def)
  qed
qed

lemma wait_for_armed_commands:
  assumes "wait_for_armed w s = Some r"
  shows "commands r = commands s"
proof (rule wait_for_armed.raw_induct
    [where P = "\<lambda>w s r. commands r = commands s", OF _ assms])
  fix f w s and r :: state
  assume IH: "\<And>w s r. f w s = Some r \<Longrightarrow> commands r = commands s"
    and eq: "(if \<not> armed (w (tick s))
              then f w (sleep (request (SetArmed True) s)) else Some s) = Some r"
  show "commands r = commands s"
  proof (cases "armed (w (tick s))")
    case True
    then show ?thesis using eq by simp
  next
    case False
    then have "f w (sleep (request (SetArmed True) s)) = Some r"
      using eq by simp
    then have "commands r = commands (sleep (request (SetArmed True) s))"
      by (rule IH)
    then show ?thesis by (simp add: sleep_def request_def)
  qed
qed

lemma wait_for_altitude_commands:
  assumes "wait_for_altitude w a s = Some r"
  shows "commands r = commands s"
proof (rule wait_for_altitude.raw_induct
    [where P = "\<lambda>w a s r. commands r = commands s", OF _ assms])
  fix f w s and a :: real and r :: state
  assume IH: "\<And>w a s r. f w a s = Some r \<Longrightarrow> commands r = commands s"
    and eq: "(let requiredAlt = a * 0.95 in
              if rel_alt (w (tick s)) \<ge> requiredAlt then Some s else f w a (sleep s)) = Some r"
  show "commands r = commands s"
  proof (cases "a * 0.95 \<le> rel_alt (w (tick s))")
    case True
    then show ?thesis using eq by (simp add: Let_def)
  next
    case False
    then have "f w a (sleep s) = Some r"
      using eq by (simp add: Let_def)
    then have "commands r = commands (sleep s)"
      by (rule IH)
    then show ?thesis by (simp add: sleep_def)
  qed
qed

text \<open>So the monitoring loop of a run starts with as many commands as there are records.\<close>

lemma monitoring_starts_with_mission:
  assumes "wait_for_mode w ''GUIDED'' (upload_mission messages s) = Some s1"
    and "wait_for_armed w s1 = Some s2"
    and "wait_for_altitude w 30 (request (SimpleTakeoff 30) s2) = Some s3"
    and "wait_for_mode w ''AUTO'' (request (SetNext 0) s3) = Some s4"
  shows "length (commands s4) = length messages"
proof -
  have "commands s1 = map waypoint_command messages"
    using wait_for_mode_commands [OF assms(1)] by (simp add: upload_mission_commands)
  then have "commands s2 = map waypoint_command messages"
    using wait_for_armed_commands [OF assms(2)] by simp
  then have "commands s3 = map waypoint_command messages"
    using wait_for_altitude_commands [OF assms(3)] by (simp add: request_def)
  then have "commands s4 = map waypoint_command messages"
    using wait_for_mode_commands [OF assms(4)] by (simp add: request_def)
  then show ?thesis by simp
qed


text \<open>The return to launch: one request per poll until the vehicle reports RTL, then the
  close; no request for a vehicle that reports RTL already.\<close>

lemma rtl_phase_reaches:
  fixes s :: state
  assumes "\<forall>i<j. mode_name (w (tick s + i)) \<noteq> ''RTL''"
    and "mode_name (w (tick s + j)) = ''RTL''"
  shows "rtl_phase w sitl s =
     Some \<lparr>tick = tick s + j,
           trace = trace s @ replicate j (SetMode ''RTL'') @
                     VehicleClose # (if sitl then [SitlStop] else []),
           commands = commands s\<rparr>"
proof -
  have "wait_for_mode w ''RTL'' s =
      Some (s\<lparr>tick := tick s + j, trace := trace s @ replicate j (SetMode ''RTL'')\<rparr>)"
    using assms by (rule wait_for_mode_reaches)
  then show ?thesis
    by (cases s) (simp add: rtl_phase_def Let_def request_def)
qed

lemma rtl_phase_never:
  assumes "\<forall>t \<ge> tick s. mode_name (w t) \<noteq> ''RTL''"
  shows "rtl_phase w sitl s = None"
  using wait_for_mode_never [OF assms] by (simp add: rtl_phase_def)

text \<open>
  Claim C7, as the code has it. Let the clock advance by one unit per poll, and let no
  observed cursor exceed the mission length \<open>n\<close>, the number of uploaded commands. Then the
  loop returns after \<open>k \<le> 60\<close> sleeps, where no poll before \<open>k\<close> saw the cursor at \<open>n\<close>, and
  either \<open>k < 60\<close> and poll \<open>k\<close> saw the cursor at \<open>n\<close> (the early exit), or \<open>k = 60\<close> (the
  budget has expired). In both cases the run goes on with the return-to-launch loop from
  there: it requests mode RTL once per poll until the vehicle reports RTL, then closes
  the vehicle and stops the simulator if it started one. When the vehicle reports RTL
  after \<open>j\<close> more polls, exactly \<open>j\<close> requests are made, none if it reports RTL already; when
  it never does, the run never ends.
\<close>

theorem monitoring_loop:
  assumes clk: "\<forall>k \<le> 60. clock (w (tick s + k)) = clock (w (tick s)) + real k"
    and len: "length (commands s) = n"
    and rng: "\<forall>k < 60. commands_next (w (tick s + k)) \<le> n"
  shows "\<exists>k \<le> 60.
      monitor_mission w (clock (w (tick s))) n s = Some (Inr (s\<lparr>tick := tick s + k\<rparr>)) \<and>
      (\<forall>j < k. commands_next (w (tick s + j)) \<noteq> n) \<and>
      (k < 60 \<longrightarrow> commands_next (w (tick s + k)) = n) \<and>
      monitor_phase w n sitl s = map_option Inr (rtl_phase w sitl (s\<lparr>tick := tick s + k\<rparr>)) \<and>
      (\<forall>j. (\<forall>i < j. mode_name (w (tick s + k + i)) \<noteq> ''RTL'') \<and>
            mode_name (w (tick s + k + j)) = ''RTL'' \<longrightarrow>
         monitor_phase w n sitl s =
           Some (Inr \<lparr>tick = tick s + k + j,
                      trace = trace s @ replicate j (SetMode ''RTL'') @
                                VehicleClose # (if sitl then [SitlStop] else []),
                      commands = commands s\<rparr>)) \<and>
      ((\<forall>t \<ge> tick s + k. mode_name (w t) \<noteq> ''RTL'') \<longrightarrow> monitor_phase w n sitl s = None)"
proof -
  define k where "k = (LEAST k. k = 60 \<or> commands_next (w (tick s + k)) = n)"
  let ?s' = "s\<lparr>tick := tick s + k\<rparr>"
  have ex: "\<exists>k. k = 60 \<or> commands_next (w (tick s + k)) = n" by blast
  have k60: "k \<le> 60"
    unfolding k_def by (rule Least_le) simp
  have stop: "k = 60 \<or> commands_next (w (tick s + k)) = n"
    unfolding k_def by (rule LeastI_ex [OF ex])
  have before: "j \<noteq> 60 \<and> commands_next (w (tick s + j)) \<noteq> n" if "j < k" for j
    using not_less_Least [of j "\<lambda>k. k = 60 \<or> commands_next (w (tick s + k)) = n"] that
    unfolding k_def by blast
  have "\<forall>j<k. clock (w (tick s + j)) - clock (w (tick s)) < 60 \<and>
          commands_next (w (tick s + j)) \<noteq> n \<and>
          commands_next (w (tick s + j)) \<le> length (commands s)"
  proof (intro allI impI)
    fix j assume j: "j < k"
    then have "j < 60" using k60 by simp
    then show "clock (w (tick s + j)) - clock (w (tick s)) < 60 \<and>
          commands_next (w (tick s + j)) \<noteq> n \<and>
          commands_next (w (tick s + j)) \<le> length (commands s)"
      using clk [rule_format, of j] rng [rule_format, of j] before [OF j] len by simp
  qed
  moreover have "\<not> clock (w (tick s + k)) - clock (w (tick s)) < 60 \<or>
         (commands_next (w (tick s + k)) = n \<and> n \<le> length (commands s))"
    using stop clk [rule_format, of k] k60 len by auto
  ultimately have run: "monitor_mission w (clock (w (tick s))) n s = Some (Inr ?s')"
    by (rule monitor_mission_run)
  have ph: "monitor_phase w n sitl s = map_option Inr (rtl_phase w sitl ?s')"
    using run by (simp add: monitor_phase_def Let_def)
  have rtl: "monitor_phase w n sitl s =
           Some (Inr \<lparr>tick = tick s + k + j,
                      trace = trace s @ replicate j (SetMode ''RTL'') @
                                VehicleClose # (if sitl then [SitlStop] else []),
                      commands = commands s\<rparr>)"
    if "\<forall>i < j. mode_name (w (tick s + k + i)) \<noteq> ''RTL''"
      and "mode_name (w (tick s + k + j)) = ''RTL''" for j
  proof -
    have "rtl_phase w sitl ?s' =
      Some \<lparr>tick = tick ?s' + j,
           trace = trace ?s' @ replicate j (SetMode ''RTL'') @
                     VehicleClose # (if sitl then [SitlStop] else []),
           commands = commands ?s'\<rparr>"
      using that by (intro rtl_phase_reaches) simp_all
    then show ?thesis unfolding ph by simp
  qed
  have never: "monitor_phase w n sitl s = None"
    if "\<forall>t \<ge> tick s + k. mode_name (w t) \<noteq> ''RTL''"
  proof -
    have "rtl_phase w sitl ?s' = None"
      using that by (intro rtl_phase_never) simp
    then show ?thesis unfolding ph by simp
  qed
  have early: "k < 60 \<longrightarrow> commands_next (w (tick s + k)) = n"
    using stop by auto
  have nohit: "\<forall>j < k. commands_next (w (tick s + j)) \<noteq> n"
    using before by blast
  show ?thesis
  proof (intro exI conjI)
    show "k \<le> 60" by (rule k60)
    show "monitor_mission w (clock (w (tick s))) n s = Some (Inr ?s')" by (rule run)
    show "\<forall>j < k. commands_next (w (tick s + j)) \<noteq> n" by (rule nohit)
    show "k < 60 \<longrightarrow> commands_next (w (tick s + k)) = n" by (rule early)
    show "monitor_phase w n sitl s = map_option Inr (rtl_phase w sitl ?s')" by (rule ph)
    show "\<forall>j. (\<forall>i < j. mode_name (w (tick s + k + i)) \<noteq> ''RTL'') \<and>
            mode_name (w (tick s + k + j)) = ''RTL'' \<longrightarrow>
         monitor_phase w n sitl s =
           Some (Inr \<lparr>tick = tick s + k + j,
                      trace = trace s @ replicate j (SetMode ''RTL'') @
                                VehicleClose # (if sitl then [SitlStop] else []),
                      commands = commands s\<rparr>)"
      using rtl by blast
    show "(\<forall>t \<ge> tick s + k. mode_name (w t) \<noteq> ''RTL'') \<longrightarrow> monitor_phase w n sitl s = None"
      using never by blast
  qed
qed

theorem monitoring_loop_witness:
  "monitor_mission example_world (clock (example_world 0)) 2 example_state =
     Some (Inr (example_state\<lparr>tick := 30\<rparr>)) \<and>
   monitor_phase example_world 2 False example_state =
     Some (Inr \<lparr>tick = 32, trace = [SetMode ''RTL'', SetMode ''RTL'', VehicleClose],
                commands = example_mission\<rparr>)"
proof -
  have t0: "tick example_state = 0" by (simp add: example_state_def)
  have clk: "\<forall>k \<le> 60. clock (example_world (tick example_state + k)) =
      clock (example_world (tick example_state)) + real k"
    by (simp add: example_world_def)
  have len: "length (commands example_state) = 2"
    by (simp add: example_state_def example_mission_def)
  have rng: "\<forall>k < 60. commands_next (example_world (tick example_state + k)) \<le> 2"
    by (simp add: example_world_def)
  obtain k where k: "k \<le> 60"
    "monitor_mission example_world (clock (example_world (tick example_state))) 2 example_state =
       Some (Inr (example_state\<lparr>tick := tick example_state + k\<rparr>))"
    "\<forall>j < k. commands_next (example_world (tick example_state + j)) \<noteq> 2"
    "k < 60 \<longrightarrow> commands_next (example_world (tick example_state + k)) = 2"
    "\<forall>j. (\<forall>i < j. mode_name (example_world (tick example_state + k + i)) \<noteq> ''RTL'') \<and>
          mode_name (example_world (tick example_state + k + j)) = ''RTL'' \<longrightarrow>
       monitor_phase example_world 2 False example_state =
         Some (Inr \<lparr>tick = tick example_state + k + j,
                    trace = trace example_state @ replicate j (SetMode ''RTL'') @
                              VehicleClose # (if False then [SitlStop] else []),
                    commands = commands example_state\<rparr>)"
    using monitoring_loop [OF clk len rng, of False] by blast
  have "\<not> 30 < k"
  proof
    assume "30 < k"
    then have "commands_next (example_world (tick example_state + 30)) \<noteq> 2"
      using k(3) by blast
    then show False by (simp add: example_world_def)
  qed
  moreover have "\<not> k < 30"
  proof
    assume "k < 30"
    then have "commands_next (example_world (tick example_state + k)) = 2"
      using k(4) by simp
    then show False using \<open>k < 30\<close> by (simp add: example_world_def t0)
  qed
  ultimately have k30: "k = 30" by simp
  have "(\<forall>i < 2. mode_name (example_world (tick example_state + k + i)) \<noteq> ''RTL'') \<and>
          mode_name (example_world (tick example_state + k + 2)) = ''RTL''"
    by (simp add: example_world_def t0 k30)
  then have "monitor_phase example_world 2 False example_state =
         Some (Inr \<lparr>tick = tick example_state + k + 2,
                    trace = trace example_state @ replicate 2 (SetMode ''RTL'') @
                              VehicleClose # (if False then [SitlStop] else []),
                    commands = commands example_state\<rparr>)"
    using k(5) by blast
  then have "monitor_phase example_world 2 False example_state =
     Some (Inr \<lparr>tick = 32, trace = [SetMode ''RTL'', SetMode ''RTL'', VehicleClose],
                commands = example_mission\<rparr>)"
    by (simp add: t0 k30 example_state_def numeral_2_eq_2)
  then show ?thesis using k(2) by (simp add: t0 k30)
qed

text \<open>The claim as the specification states it fails twice. For a vehicle that reports
  the cursor 3 on a mission of two commands, the first poll raises \<^verbatim>\<open>IndexError\<close> when it
  computes the distance to print, and the run ends there, with no request for RTL. For
  a vehicle that has turned to RTL by itself when the loop exits, the run closes the
  vehicle without any request for RTL.\<close>

theorem monitoring_loop_overrun:
  "monitor_mission overrun_world (clock (overrun_world 0)) 2 example_state =
     Some (Inl (Raise IndexError, example_state)) \<and>
   monitor_phase overrun_world 2 False example_state =
     Some (Inl (Raise IndexError, example_state)) \<and>
   monitor_phase early_rtl_world 2 False example_state =
     Some (Inr \<lparr>tick = 1, trace = [VehicleClose], commands = example_mission\<rparr>)"
proof -
  have d: "distance_to_current_waypoint (overrun_world 0) example_mission = Inl IndexError"
    by (simp add: distance_to_current_waypoint_def getitem_def overrun_world_def
        example_mission_def)
  have m: "monitor_mission overrun_world (clock (overrun_world 0)) 2 example_state =
     Some (Inl (Raise IndexError, example_state))"
    using d by (subst monitor_mission.simps) (simp add: example_state_def)
  then have a: "monitor_phase overrun_world 2 False example_state =
     Some (Inl (Raise IndexError, example_state))"
    by (simp add: monitor_phase_def Let_def example_state_def)
  have b: "monitor_phase early_rtl_world 2 False example_state =
     Some (Inr \<lparr>tick = 1, trace = [VehicleClose], commands = example_mission\<rparr>)"
    by (simp add: monitor_phase_def rtl_phase_def Let_def example_state_def early_rtl_world_def
        monitor_mission.simps wait_for_mode.simps distance_to_current_waypoint_def
        getitem_def example_mission_def sleep_def request_def)
  show ?thesis using m a b by simp
qed


subsection \<open>A whole run\<close>

text \<open>The script from the log to the last line, for a vehicle that confirms every request
  after a while: the requests in the order of the script, ten sleeps.\<close>

lemma main_example_run:
  "main flying_world percent_f_nearest \<lparr>connect = None, tlog = ''flight.tlog''\<rparr>
     [Recv \<lparr>lat = 474000000, lon = 85000000, alt = 500\<rparr>, Recv \<lparr>lat = 0, lon = 0, alt = 0\<rparr>,
      Recv \<lparr>lat = 474001000, lon = 85002000, alt = 510\<rparr>] =
   Some (Inr \<lparr>tick = 10,
     trace = [SitlDownload ''copter'' ''3.3'',
              SitlLaunch [''-I0'', ''--model'', ''quad'', ''--home=47.400000,8.500000,584,353''],
              Connect ''tcp:127.0.0.1:5760'', CmdsWaitReady, CmdsClear,
              CmdsAdd (waypoint_command \<lparr>lat = 474000000, lon = 85000000, alt = 500\<rparr>),
              CmdsAdd (waypoint_command \<lparr>lat = 474001000, lon = 85002000, alt = 510\<rparr>),
              CmdsUpload, SetMode ''GUIDED'', SetMode ''GUIDED'', SetArmed True,
              SimpleTakeoff 30, SetNext 0, SetMode ''AUTO'', SetMode ''RTL'', SetMode ''RTL'',
              VehicleClose, SitlStop],
     commands = example_mission\<rparr>)"
proof -
  have p1: "percent_f_nearest (237 / 5) = ''47.400000''"
    by (simp add: percent_f_nearest_def round_def fixed6_def digits_of.simps digit_char_def)
  have p2: "percent_f_nearest (17 / 2) = ''8.500000''"
    by (simp add: percent_f_nearest_def round_def fixed6_def digits_of.simps digit_char_def)
  show ?thesis
    by (simp add: main_def position_messages_from_tlog_def shrink_def max_points_def
      choose_link_def getitem_def start_default_sitl_def Let_def init_state_def request_def
      upload_mission_def cmds_clear_def cmds_add_def guided_phase_def arming_phase_def
      takeoff_phase_def auto_phase_def monitor_phase_def rtl_phase_def sleep_def
      wait_for_mode.simps wait_for_armed.simps wait_for_altitude.simps monitor_mission.simps
      flying_world_simps distance_to_current_waypoint_def example_mission_def p1 p2)
qed

end
